theory Spec2Isabelle
  imports Complex_Main "HOL-Library.Multiset" "HOL-Library.Char_ord" "HOL-Library.List_Lexorder"
begin

section \<open>JavaScript numbers\<close>

text \<open>
  The components compute with JavaScript numbers. Finite numbers are modelled as exact
  rationals: the rounding error of IEEE doubles, overflow and the negative zero are
  outside the model. The non-finite
  results of a division by zero are kept, since the code divides by totals that can be
  zero: \<open>x / 0\<close> is \<open>Infinity\<close>, \<open>-Infinity\<close> or \<open>NaN\<close>.
\<close>

datatype jsnum = Num rat | PosInf | NegInf | NaN

text \<open>\<open>a / b\<close> on two finite numbers.\<close>

definition js_div :: "rat \<Rightarrow> rat \<Rightarrow> jsnum" where
  "js_div a b =
     (if b \<noteq> 0 then Num (a / b)
      else if 0 < a then PosInf
      else if a < 0 then NegInf
      else NaN)"







section \<open>Summaries.tsx: the summary table\<close>

subsection \<open>Items and sort keys\<close>

text \<open>
  The items of \<open>SummaryCardProps\<close>. An optional field that is absent (or
  \<open>null\<close>) is \<open>None\<close>; the code reads it with \<open>?? 0\<close>.
\<close>

record item =
  name :: string
  slug :: "string option"
  regular :: rat
  preContracted :: rat
  total :: rat
  consultingFee :: "rat option"
  consultingPreFee :: "rat option"
  handsOnFee :: "rat option"
  squadFee :: "rat option"

text \<open>\<open>keyof (typeof items)[0]\<close>, the type of \<open>sortConfig.key\<close>.\<close>

datatype sortKey =
  KName | KSlug | KRegular | KPreContracted | KTotal
  | KConsultingFee | KConsultingPreFee | KHandsOnFee | KSquadFee

text \<open>A field value is a string or a number.\<close>

datatype jsval = VStr string | VNum rat

text \<open>\<open>x ?? 0\<close> on an optional number.\<close>

definition orZero :: "rat option \<Rightarrow> rat" where
  "orZero v = (case v of None \<Rightarrow> 0 | Some x \<Rightarrow> x)"

text \<open>\<open>a[key] ?? 0\<close>.\<close>

fun fieldOrZero :: "sortKey \<Rightarrow> item \<Rightarrow> jsval" where
  "fieldOrZero KName a = VStr (name a)"
| "fieldOrZero KSlug a = (case slug a of None \<Rightarrow> VNum 0 | Some s \<Rightarrow> VStr s)"
| "fieldOrZero KRegular a = VNum (regular a)"
| "fieldOrZero KPreContracted a = VNum (preContracted a)"
| "fieldOrZero KTotal a = VNum (total a)"
| "fieldOrZero KConsultingFee a = VNum (orZero (consultingFee a))"
| "fieldOrZero KConsultingPreFee a = VNum (orZero (consultingPreFee a))"
| "fieldOrZero KHandsOnFee a = VNum (orZero (handsOnFee a))"
| "fieldOrZero KSquadFee a = VNum (orZero (squadFee a))"

subsection \<open>sortedItems\<close>






subsection \<open>totals\<close>

record totals_rec =
  t_regular :: rat
  t_preContracted :: rat
  t_total :: rat
  t_consultingFee :: rat
  t_consultingPreFee :: rat
  t_handsOnFee :: rat
  t_squadFee :: rat

definition totalsStep :: "totals_rec \<Rightarrow> item \<Rightarrow> totals_rec" where
  "totalsStep acc it =
     \<lparr> t_regular = t_regular acc + regular it,
       t_preContracted = t_preContracted acc + preContracted it,
       t_total = t_total acc + total it,
       t_consultingFee = t_consultingFee acc + orZero (consultingFee it),
       t_consultingPreFee = t_consultingPreFee acc + orZero (consultingPreFee it),
       t_handsOnFee = t_handsOnFee acc + orZero (handsOnFee it),
       t_squadFee = t_squadFee acc + orZero (squadFee it) \<rparr>"

definition totalsInit :: totals_rec where
  "totalsInit =
     \<lparr> t_regular = 0, t_preContracted = 0, t_total = 0, t_consultingFee = 0,
       t_consultingPreFee = 0, t_handsOnFee = 0, t_squadFee = 0 \<rparr>"

text \<open>\<open>items.reduce(f, init)\<close> is a left fold.\<close>

definition totals :: "item list \<Rightarrow> totals_rec" where
  "totals items = foldl totalsStep totalsInit items"

subsection \<open>cumulativeItems\<close>


text \<open>
  \<open>Number(i[k] ?? 0)\<close> for an effective key \<open>k\<close>. The effective key is never
  \<open>name\<close> or \<open>slug\<close>; the two equations for them are what \<open>Number\<close> of
  such a field would be, finite values only, and are not reached from the component.
\<close>

definition numberOf :: "(string \<Rightarrow> jsnum) \<Rightarrow> sortKey \<Rightarrow> item \<Rightarrow> rat" where
  "numberOf toNum k i =
     (case fieldOrZero k i of
        VNum x \<Rightarrow> x
      | VStr s \<Rightarrow> (case toNum s of Num x \<Rightarrow> x | _ \<Rightarrow> 0))"

text \<open>
  \<open>totals[k]\<close> for an effective key. The last equation (\<open>name\<close>,
  \<open>slug\<close>) is not reached: the effective key is never one of them.
\<close>

fun totalsAt :: "totals_rec \<Rightarrow> sortKey \<Rightarrow> rat" where
  "totalsAt t KRegular = t_regular t"
| "totalsAt t KPreContracted = t_preContracted t"
| "totalsAt t KTotal = t_total t"
| "totalsAt t KConsultingFee = t_consultingFee t"
| "totalsAt t KConsultingPreFee = t_consultingPreFee t"
| "totalsAt t KHandsOnFee = t_handsOnFee t"
| "totalsAt t KSquadFee = t_squadFee t"
| "totalsAt t _ = 0"



subsection \<open>Row shading\<close>





subsection \<open>Percentages of the table cells\<close>

text \<open>
  \<open>formatPercent\<close> formats \<open>value / total\<close> as a percentage with one decimal.
  The result is represented by the number printed before the percent sign; the
  formatter rounds a tie away from zero. A non-finite quotient is printed as such.
\<close>

definition roundTenths :: "rat \<Rightarrow> rat" where
  "roundTenths x = sgn x * of_int \<lfloor>\<bar>x\<bar> * 10 + 1 / 2\<rfloor> / 10"

definition formatPercent :: "rat \<Rightarrow> rat \<Rightarrow> jsnum" where
  "formatPercent v tot =
     (case js_div v tot of Num q \<Rightarrow> Num (roundTenths (q * 100)) | x \<Rightarrow> x)"

text \<open>
  A table cell: the percentage in its top left corner (of the row's total), the amount,
  and the percentage in its bottom right corner (of the column's total). A percentage
  that is not rendered is \<open>None\<close>.
\<close>

record tableCell =
  topPercent :: "jsnum option"
  amount :: rat
  bottomPercent :: "jsnum option"

text \<open>
  The four fee cells of a row are written alike in the source; \<open>feeCell\<close> is
  their common form, for the fee, the row's total and the column's total.
\<close>

definition feeCell :: "rat option \<Rightarrow> rat \<Rightarrow> rat \<Rightarrow> tableCell" where
  "feeCell fee rowTotal colTotal =
     \<lparr> topPercent =
         (if orZero fee \<noteq> 0 then Some (formatPercent (orZero fee) rowTotal) else None),
       amount = orZero fee,
       bottomPercent =
         (if orZero fee \<noteq> 0 then Some (formatPercent (orZero fee) colTotal) else None) \<rparr>"

text \<open>The cells of an item's row: consulting, consulting pre, hands on, squad, total.\<close>

definition itemRow :: "item list \<Rightarrow> item \<Rightarrow> tableCell list" where
  "itemRow items it =
     (let tt = totals items in
      [ feeCell (consultingFee it) (total it) (t_consultingFee tt),
        feeCell (consultingPreFee it) (total it) (t_consultingPreFee tt),
        feeCell (handsOnFee it) (total it) (t_handsOnFee tt),
        feeCell (squadFee it) (total it) (t_squadFee tt),
        \<lparr> topPercent = None,
          amount = total it,
          bottomPercent =
            (if total it \<noteq> 0 then Some (formatPercent (total it) (t_total tt)) else None) \<rparr> ])"

text \<open>The cells of the closing row of totals.\<close>

definition totalFeeCell :: "rat \<Rightarrow> rat \<Rightarrow> tableCell" where
  "totalFeeCell colTotal grandTotal =
     \<lparr> topPercent = (if colTotal \<noteq> 0 then Some (formatPercent colTotal grandTotal) else None),
       amount = colTotal,
       bottomPercent = None \<rparr>"

definition totalsRow :: "item list \<Rightarrow> tableCell list" where
  "totalsRow items =
     (let tt = totals items in
      [ totalFeeCell (t_consultingFee tt) (t_total tt),
        totalFeeCell (t_consultingPreFee tt) (t_total tt),
        totalFeeCell (t_handsOnFee tt) (t_total tt),
        totalFeeCell (t_squadFee tt) (t_total tt),
        \<lparr> topPercent = None, amount = t_total tt, bottomPercent = None \<rparr> ])"

text \<open>The fee shown in each of the first four columns, and the column's total.\<close>

definition feeKeys :: "sortKey list" where
  "feeKeys = [KConsultingFee, KConsultingPreFee, KHandsOnFee, KSquadFee]"

section \<open>AllocationCalendar_old.tsx: the allocation calendar\<close>

subsection \<open>Dates\<close>

text \<open>
  A \<open>Date\<close> is modelled by its calendar date in local time: the year, the month
  index (0 to 11) and the day of the month, as the getters \<open>getFullYear\<close>,
  \<open>getMonth\<close> and \<open>getDate\<close> return them. The time of day, which no
  computation of the component reads, and the limits of the representable range are
  outside the model.
\<close>

record jsDate =
  getFullYear :: int
  getMonth :: nat
  getDate :: nat

definition isLeapYear :: "int \<Rightarrow> bool" where
  "isLeapYear y = ((y mod 4 = 0 \<and> y mod 100 \<noteq> 0) \<or> y mod 400 = 0)"

definition daysInMonthOf :: "int \<Rightarrow> nat \<Rightarrow> nat" where
  "daysInMonthOf y m =
     (if m = 1 then (if isLeapYear y then 29 else 28)
      else if m = 3 \<or> m = 5 \<or> m = 8 \<or> m = 10 then 30
      else 31)"

definition prevYear :: "int \<Rightarrow> nat \<Rightarrow> int" where
  "prevYear y m = (if m = 0 then y - 1 else y)"

definition prevMonth :: "nat \<Rightarrow> nat" where
  "prevMonth m = (if m = 0 then 11 else m - 1)"

definition nextYear :: "int \<Rightarrow> nat \<Rightarrow> int" where
  "nextYear y m = (if m \<ge> 11 then y + 1 else y)"

definition nextMonth :: "nat \<Rightarrow> nat" where
  "nextMonth m = (if m \<ge> 11 then 0 else m + 1)"

text \<open>
  The date that lies \<open>d - 1\<close> days after the first day of month \<open>m\<close> of year
  \<open>y\<close>, for any integer \<open>d\<close>: a day below 1 or beyond the end of the month
  carries into the neighbouring months.
\<close>

function normDay :: "int \<Rightarrow> nat \<Rightarrow> int \<Rightarrow> jsDate" where
  "normDay y m d =
     (if d < 1 then
        normDay (prevYear y m) (prevMonth m) (d + int (daysInMonthOf (prevYear y m) (prevMonth m)))
      else if d > int (daysInMonthOf y m) then
        normDay (nextYear y m) (nextMonth m) (d - int (daysInMonthOf y m))
      else \<lparr> getFullYear = y, getMonth = m, getDate = nat d \<rparr>)"
  by pat_completeness auto
termination
  by (relation "measure (\<lambda>(y, m, d). nat (if d < 1 then 33 - d else d))")
     (auto simp: daysInMonthOf_def)

declare normDay.simps [simp del]

text \<open>\<open>MakeDay(year, month, date)\<close>: the month index carries into the year first.\<close>

definition makeDay :: "int \<Rightarrow> int \<Rightarrow> int \<Rightarrow> jsDate" where
  "makeDay y m d = normDay (y + m div 12) (nat (m mod 12)) d"

text \<open>
  The constructor \<open>new Date(year, monthIndex, day)\<close>. A year from 0 to 99 stands
  for the year 1900 + \<open>year\<close>.
\<close>

definition newDate :: "int \<Rightarrow> int \<Rightarrow> int \<Rightarrow> jsDate" where
  "newDate y m d = makeDay (if 0 \<le> y \<and> y \<le> 99 then 1900 + y else y) m d"

definition setMonth :: "jsDate \<Rightarrow> int \<Rightarrow> jsDate" where
  "setMonth dt m = makeDay (getFullYear dt) m (int (getDate dt))"

definition setDate :: "jsDate \<Rightarrow> int \<Rightarrow> jsDate" where
  "setDate dt d = makeDay (getFullYear dt) (int (getMonth dt)) d"

text \<open>
  The date 24 hours later: the next calendar date. A day of 23 or 25 hours, at a change
  of daylight-saving time, is outside the model.
\<close>

definition plusOneDay :: "jsDate \<Rightarrow> jsDate" where
  "plusOneDay dt = makeDay (getFullYear dt) (int (getMonth dt)) (int (getDate dt) + 1)"

text \<open>
  \<open>getDay\<close>: the day of the week, 0 for Sunday. The days are counted from the first
  of January of the year 1 of the proleptic Gregorian calendar, a Monday.
\<close>

definition daysBeforeMonth :: "int \<Rightarrow> nat \<Rightarrow> nat" where
  "daysBeforeMonth y m = sum_list (map (daysInMonthOf y) [0 ..< m])"

definition dayNumber :: "jsDate \<Rightarrow> int" where
  "dayNumber dt =
     (let y = getFullYear dt - 1 in
      365 * y + y div 4 - y div 100 + y div 400
        + int (daysBeforeMonth (getFullYear dt) (getMonth dt)) + int (getDate dt))"

definition getDay :: "jsDate \<Rightarrow> nat" where
  "getDay dt = nat (dayNumber dt mod 7)"

subsection \<open>Formatting a date\<close>

text \<open>
  The template
  \<open>`${date.getFullYear()}-${(date.getMonth() + 1).toString().padStart(2, '0')}-${date.getDate().toString().padStart(2, '0')}`\<close>.
\<close>

definition digitChar :: "nat \<Rightarrow> char" where
  "digitChar n = ''0123456789'' ! n"

fun natToString :: "nat \<Rightarrow> string" where
  "natToString n =
     (if n < 10 then [digitChar n] else natToString (n div 10) @ [digitChar (n mod 10)])"

declare natToString.simps [simp del]

definition intToString :: "int \<Rightarrow> string" where
  "intToString i = (if i < 0 then CHR ''-'' # natToString (nat (- i)) else natToString (nat i))"

definition padStart2 :: "string \<Rightarrow> string" where
  "padStart2 s = replicate (2 - length s) CHR ''0'' @ s"

definition formatDate :: "jsDate \<Rightarrow> string" where
  "formatDate dt =
     intToString (getFullYear dt) @ ''-'' @ padStart2 (natToString (getMonth dt + 1))
       @ ''-'' @ padStart2 (natToString (getDate dt))"

subsection \<open>Hours, the timesheet and the calendar cells\<close>

record hours =
  consulting :: rat
  handsOn :: rat
  squad :: rat
  internal :: rat

text \<open>
  Modelled from the spec: \<open>StatType\<close> is imported from \<open>@/app/constants/colors\<close>,
  which is not among the sources; it names the four engagement categories, the keys of
  \<open>hours\<close>.
\<close>

datatype StatType = Consulting | HandsOn | Squad | Internal

text \<open>\<open>hours[selectedStatType]\<close>.\<close>

fun statHoursOf :: "StatType \<Rightarrow> hours \<Rightarrow> rat" where
  "statHoursOf Consulting h = consulting h"
| "statHoursOf HandsOn h = handsOn h"
| "statHoursOf Squad h = squad h"
| "statHoursOf Internal h = internal h"

definition zeroHours :: hours where
  "zeroHours = \<lparr> consulting = 0, handsOn = 0, squad = 0, internal = 0 \<rparr>"

text \<open>The four \<open>+=\<close> of an accumulation of hours.\<close>

definition addHours :: "hours \<Rightarrow> hours \<Rightarrow> hours" where
  "addHours acc h =
     \<lparr> consulting = consulting acc + consulting h,
       handsOn = handsOn acc + handsOn h,
       squad = squad acc + squad h,
       internal = internal acc + internal h \<rparr>"

text \<open>
  An entry of \<open>timesheet.byDate\<close>. An absent total is \<open>None\<close>; the code reads
  it with \<open>|| 0\<close>, which \<open>orZero\<close> models as well (the only other falsy number
  is 0 itself).
\<close>

record dayEntry =
  date :: string
  totalConsultingHours :: "rat option"
  totalHandsOnHours :: "rat option"
  totalSquadHours :: "rat option"
  totalInternalHours :: "rat option"

text \<open>
  An entry of \<open>timesheet.businessCalendar.holidays\<close>. Parsing the stored string and
  reading the result in the local time zone belong to the platform: \<open>localDate\<close> is
  the local calendar date of \<open>new Date(h.date)\<close>, and \<open>None\<close> when the string
  does not parse (an invalid date).
\<close>

record holiday =
  localDate :: "jsDate option"
  reason :: string

text \<open>
  The timesheet. \<open>holidays\<close> is \<open>None\<close> when \<open>businessCalendar\<close> or its
  \<open>holidays\<close> is absent.
\<close>

record timesheet =
  byDate :: "dayEntry list"
  holidays :: "holiday list option"

datatype cellType = Prev | Current | Next | Total

text \<open>
  \<open>DayData\<close>. The cell of a week's total has no \<open>day\<close>; its absent
  \<open>isHoliday\<close>, only ever tested for truth, is \<open>False\<close>.
\<close>

record dayData =
  day :: "nat option"
  type :: cellType
  cellHours :: hours
  isHolidayFlag :: bool
  holidayReason :: "string option"

subsection \<open>Available statistic types\<close>

definition totalHours :: "timesheet \<Rightarrow> hours" where
  "totalHours ts =
     foldl (\<lambda>acc d.
        \<lparr> consulting = consulting acc + orZero (totalConsultingHours d),
          handsOn = handsOn acc + orZero (totalHandsOnHours d),
          squad = squad acc + orZero (totalSquadHours d),
          internal = internal acc + orZero (totalInternalHours d) \<rparr>)
       zeroHours (byDate ts)"

text \<open>\<open>Object.entries(totalHours)\<close>, in the order the object literal gives its keys.\<close>

definition entriesOf :: "hours \<Rightarrow> (StatType \<times> rat) list" where
  "entriesOf h =
     [(Consulting, consulting h), (HandsOn, handsOn h), (Squad, squad h), (Internal, internal h)]"

definition availableStatTypes :: "timesheet \<Rightarrow> StatType list" where
  "availableStatTypes ts = map fst (filter (\<lambda>(_, h). h > 0) (entriesOf (totalHours ts)))"

text \<open>
  The statement run on every render: when the selected type is not available and some
  type is, \<open>setSelectedStatType(availableStatTypes[0])\<close>. The result is the selected
  type after it.
\<close>

definition substituteStatType :: "timesheet \<Rightarrow> StatType \<Rightarrow> StatType" where
  "substituteStatType ts selectedStatType =
     (let avail = availableStatTypes ts in
      if selectedStatType \<notin> set avail \<and> length avail > 0 then
        (case avail of t # _ \<Rightarrow> t | [] \<Rightarrow> selectedStatType)
      else selectedStatType)"

subsection \<open>Hours and holiday of a date\<close>

definition getHoursForDate :: "timesheet \<Rightarrow> jsDate \<Rightarrow> hours" where
  "getHoursForDate ts dt =
     (let formattedDate = formatDate dt;
          dayData = find (\<lambda>d. date d = formattedDate) (byDate ts)
      in \<lparr> consulting = orZero (Option.bind dayData totalConsultingHours),
           handsOn = orZero (Option.bind dayData totalHandsOnHours),
           squad = orZero (Option.bind dayData totalSquadHours),
           internal = orZero (Option.bind dayData totalInternalHours) \<rparr>)"

text \<open>
  \<open>isHoliday\<close>: the first holiday whose date, 24 hours later, is formatted as the
  date of the cell. An invalid holiday date is formatted as \<open>NaN-NaN-NaN\<close> and
  matches no cell.
\<close>

definition isHoliday :: "timesheet \<Rightarrow> jsDate \<Rightarrow> holiday option" where
  "isHoliday ts dt =
     (let formattedDate = formatDate dt in
      case holidays ts of
        None \<Rightarrow> None
      | Some hs \<Rightarrow>
          find (\<lambda>h. case localDate h of
                       None \<Rightarrow> False
                     | Some d \<Rightarrow> formatDate (plusOneDay d) = formattedDate) hs)"

subsection \<open>The grid\<close>

text \<open>The object built for one day of the grid.\<close>

definition dayCell :: "timesheet \<Rightarrow> jsDate \<Rightarrow> nat \<Rightarrow> cellType \<Rightarrow> dayData" where
  "dayCell ts dt d ty =
     (let holiday = isHoliday ts dt in
      \<lparr> day = Some d,
        type = ty,
        cellHours = getHoursForDate ts dt,
        isHolidayFlag = (holiday \<noteq> None),
        holidayReason = map_option reason holiday \<rparr>)"

definition currentYear :: "jsDate \<Rightarrow> int" where
  "currentYear selectedDate = getFullYear selectedDate"

definition currentMonth :: "jsDate \<Rightarrow> int" where
  "currentMonth selectedDate = int (getMonth selectedDate)"

definition firstDayOfMonth :: "jsDate \<Rightarrow> jsDate" where
  "firstDayOfMonth sd = newDate (currentYear sd) (currentMonth sd) 1"

definition lastDayOfMonth :: "jsDate \<Rightarrow> jsDate" where
  "lastDayOfMonth sd = newDate (currentYear sd) (currentMonth sd + 1) 0"

definition daysInMonth :: "jsDate \<Rightarrow> nat" where
  "daysInMonth sd = getDate (lastDayOfMonth sd)"

definition startingDayOfWeek :: "jsDate \<Rightarrow> nat" where
  "startingDayOfWeek sd = getDay (firstDayOfMonth sd)"

definition totalDays :: "jsDate \<Rightarrow> nat" where
  "totalDays sd = startingDayOfWeek sd + daysInMonth sd"

text \<open>\<open>Math.ceil(totalDays / 7)\<close>.\<close>

definition weeksNeeded :: "jsDate \<Rightarrow> nat" where
  "weeksNeeded sd = nat \<lceil>(of_nat (totalDays sd) :: rat) / 7\<rceil>"

definition totalCells :: "jsDate \<Rightarrow> nat" where
  "totalCells sd = weeksNeeded sd * 7"

definition previousMonthDays :: "timesheet \<Rightarrow> jsDate \<Rightarrow> dayData list" where
  "previousMonthDays ts sd =
     rev (map (\<lambda>i. let dt = newDate (currentYear sd) (currentMonth sd) (- int i)
                    in dayCell ts dt (getDate dt) Prev)
            [0 ..< startingDayOfWeek sd])"

definition currentMonthDays :: "timesheet \<Rightarrow> jsDate \<Rightarrow> dayData list" where
  "currentMonthDays ts sd =
     map (\<lambda>i. let dt = newDate (currentYear sd) (currentMonth sd) (int i + 1)
               in dayCell ts dt (i + 1) Current)
       [0 ..< daysInMonth sd]"

definition remainingDays :: "timesheet \<Rightarrow> jsDate \<Rightarrow> nat" where
  "remainingDays ts sd =
     totalCells sd - (length (previousMonthDays ts sd) + length (currentMonthDays ts sd))"

definition nextMonthDays :: "timesheet \<Rightarrow> jsDate \<Rightarrow> dayData list" where
  "nextMonthDays ts sd =
     map (\<lambda>i. let dt = newDate (currentYear sd) (currentMonth sd + 1) (int i + 1)
               in dayCell ts dt (i + 1) Next)
       [0 ..< remainingDays ts sd]"

definition allDays :: "timesheet \<Rightarrow> jsDate \<Rightarrow> dayData list" where
  "allDays ts sd = previousMonthDays ts sd @ currentMonthDays ts sd @ nextMonthDays ts sd"

subsection \<open>Rows and column totals\<close>

text \<open>\<open>xs.slice(a, b)\<close> for \<open>0 \<le> a \<le> b\<close>.\<close>

definition slice :: "'a list \<Rightarrow> nat \<Rightarrow> nat \<Rightarrow> 'a list" where
  "slice xs a b = take (b - a) (drop a xs)"

definition weekTotalOf :: "dayData list \<Rightarrow> hours" where
  "weekTotalOf weekDays =
     foldl (\<lambda>weekTotal c. if type c = Current then addHours weekTotal (cellHours c) else weekTotal)
       zeroHours weekDays"

definition totalCell :: "hours \<Rightarrow> dayData" where
  "totalCell h =
     \<lparr> day = None, type = Total, cellHours = h, isHolidayFlag = False, holidayReason = None \<rparr>"

definition rowsOf :: "dayData list \<Rightarrow> nat \<Rightarrow> dayData list list" where
  "rowsOf days weeks =
     map (\<lambda>weekIndex.
            let weekDays = slice days (weekIndex * 7) ((weekIndex + 1) * 7)
            in weekDays @ [totalCell (weekTotalOf weekDays)])
       [0 ..< weeks]"

definition rows :: "timesheet \<Rightarrow> jsDate \<Rightarrow> dayData list list" where
  "rows ts sd = rowsOf (allDays ts sd) (weeksNeeded sd)"

text \<open>
  \<open>columnTotals\<close>: eight accumulators, and for every cell of every row whose type is
  \<open>current\<close> or \<open>total\<close> the accumulator at the cell's index grows. A row has at
  most eight cells, so the index is in range.
\<close>

definition columnStep :: "hours list \<Rightarrow> dayData \<times> nat \<Rightarrow> hours list" where
  "columnStep cts ci =
     (case ci of (c, index) \<Rightarrow>
        if type c = Current \<or> type c = Total
        then cts[index := addHours (cts ! index) (cellHours c)]
        else cts)"

definition columnTotalsOf :: "dayData list list \<Rightarrow> hours list" where
  "columnTotalsOf rws =
     foldl (\<lambda>cts week. foldl columnStep cts (zip week [0 ..< length week]))
       (replicate 8 zeroHours) rws"

definition columnTotals :: "timesheet \<Rightarrow> jsDate \<Rightarrow> hours list" where
  "columnTotals ts sd = columnTotalsOf (rows ts sd)"

subsection \<open>Selection state and its handlers\<close>

text \<open>
  The state the component receives with its setters. \<open>null\<close> is \<open>None\<close>. A
  handler is a function from the state to the state after its setter calls.
\<close>

record calendarState =
  selectedDate :: jsDate
  selectedDay :: "nat option"
  selectedRow :: "nat option"
  selectedColumn :: "nat option"
  isAllSelected :: bool
  selectedStatType :: StatType

definition handleDayClick :: "nat \<Rightarrow> cellType \<Rightarrow> nat \<Rightarrow> calendarState \<Rightarrow> calendarState" where
  "handleDayClick d ty rowIndex st =
     (let sd = selectedDate st;
          newSelected =
            (if ty = Prev then setDate (setMonth sd (int (getMonth sd) - 1)) (int d)
             else if ty = Next then setDate (setMonth sd (int (getMonth sd) + 1)) (int d)
             else newDate (getFullYear sd) (int (getMonth sd)) (int d))
      in st\<lparr> selectedDate := newSelected,
             selectedDay := Some d,
             selectedRow := None,
             selectedColumn := None,
             isAllSelected := False \<rparr>)"

definition handleColumnSelect :: "nat \<Rightarrow> calendarState \<Rightarrow> calendarState" where
  "handleColumnSelect columnIndex st =
     (if columnIndex = 7 then
        st\<lparr> isAllSelected := True, selectedColumn := None, selectedRow := None,
            selectedDay := None \<rparr>
      else
        st\<lparr> selectedColumn := Some columnIndex, selectedRow := None, selectedDay := None,
            isAllSelected := False \<rparr>)"

definition handleRowSelect :: "nat \<Rightarrow> calendarState \<Rightarrow> calendarState" where
  "handleRowSelect rowIndex st =
     st\<lparr> selectedRow := Some rowIndex, selectedColumn := None, selectedDay := None,
         isAllSelected := False \<rparr>"

definition handleMonthChange :: "int \<Rightarrow> calendarState \<Rightarrow> calendarState" where
  "handleMonthChange increment st =
     st\<lparr> selectedDate := setMonth (selectedDate st) (int (getMonth (selectedDate st)) + increment),
         selectedDay := None, selectedRow := None, selectedColumn := None,
         isAllSelected := False \<rparr>"

definition handleStatTypeChange :: "StatType \<Rightarrow> calendarState \<Rightarrow> calendarState" where
  "handleStatTypeChange newType st =
     st\<lparr> selectedStatType := newType,
         selectedDay := None, selectedRow := None, selectedColumn := None,
         isAllSelected := False \<rparr>"

subsection \<open>The click on a day cell\<close>

definition isSelectable :: "dayData \<Rightarrow> StatType \<Rightarrow> bool" where
  "isSelectable dd st = (type dd = Current \<and> statHoursOf st (cellHours dd) > 0)"

text \<open>
  The \<open>onClick\<close> of \<open>DayCell\<close>: the arguments it passes to \<open>onDayClick\<close>, or
  \<open>None\<close> when it does not call it.
\<close>

definition dayCellOnClick :: "dayData \<Rightarrow> StatType \<Rightarrow> nat \<Rightarrow> (nat \<times> cellType \<times> nat) option" where
  "dayCellOnClick dd st weekIndex =
     (case day dd of
        Some d \<Rightarrow> if isSelectable dd st then Some (d, type dd, weekIndex) else None
      | None \<Rightarrow> None)"

text \<open>The state after a click on the day cell, with \<open>onDayClick = handleDayClick\<close>.\<close>

definition clickDayCell :: "dayData \<Rightarrow> nat \<Rightarrow> calendarState \<Rightarrow> calendarState" where
  "clickDayCell dd weekIndex st =
     (case dayCellOnClick dd (selectedStatType st) weekIndex of
        Some (d, ty, w) \<Rightarrow> handleDayClick d ty w st
      | None \<Rightarrow> st)"

section \<open>Notions used to state the properties\<close>

text \<open>The sort keys whose field is a number.\<close>

definition isNumericKey :: "sortKey \<Rightarrow> bool" where
  "isNumericKey key = (key \<noteq> KName \<and> key \<noteq> KSlug)"


text \<open>A conversion under which no string is a number.\<close>

definition noNumber :: "string \<Rightarrow> jsnum" where
  "noNumber s = NaN"

text \<open>Two items, given in ascending order of their totals.\<close>

definition exampleItems :: "item list" where
  "exampleItems =
     [ \<lparr> name = ''B'', slug = None, regular = 50, preContracted = 0, total = 50,
         consultingFee = None, consultingPreFee = None, handsOnFee = Some 50, squadFee = None \<rparr>,
       \<lparr> name = ''A'', slug = None, regular = 100, preContracted = 0, total = 100,
         consultingFee = Some 100, consultingPreFee = None, handsOnFee = None, squadFee = None \<rparr> ]"




text \<open>An item with a consulting fee and a total of zero.\<close>

definition zeroTotalItem :: item where
  "zeroTotalItem =
     \<lparr> name = ''Z'', slug = None, regular = 0, preContracted = 0, total = 0,
       consultingFee = Some 5, consultingPreFee = None, handsOnFee = None, squadFee = None \<rparr>"

text \<open>
  The year and the month index the grid is built for: those of the first day of the
  displayed month.
\<close>

definition gridYear :: "jsDate \<Rightarrow> int" where
  "gridYear sd = getFullYear (firstDayOfMonth sd)"

definition gridMonth :: "jsDate \<Rightarrow> nat" where
  "gridMonth sd = getMonth (firstDayOfMonth sd)"

text \<open>The same, computed from the selected date without the carrying of days.\<close>

definition effectiveYear :: "jsDate \<Rightarrow> int" where
  "effectiveYear sd =
     (if 0 \<le> getFullYear sd \<and> getFullYear sd \<le> 99 then 1900 + getFullYear sd else getFullYear sd)
       + int (getMonth sd) div 12"

definition effectiveMonth :: "jsDate \<Rightarrow> nat" where
  "effectiveMonth sd = getMonth sd mod 12"

text \<open>The number of days of the month before the displayed one.\<close>

definition prevMonthLength :: "jsDate \<Rightarrow> nat" where
  "prevMonthLength sd =
     daysInMonthOf (prevYear (gridYear sd) (gridMonth sd)) (prevMonth (gridMonth sd))"

text \<open>The date and the type of every cell of the grid, in order.\<close>

definition gridCells :: "jsDate \<Rightarrow> (jsDate \<times> cellType) list" where
  "gridCells sd =
     map (\<lambda>i. (\<lparr> getFullYear = prevYear (gridYear sd) (gridMonth sd),
                   getMonth = prevMonth (gridMonth sd),
                   getDate = prevMonthLength sd - startingDayOfWeek sd + 1 + i \<rparr>, Prev))
       [0 ..< startingDayOfWeek sd]
     @ map (\<lambda>i. (\<lparr> getFullYear = gridYear sd, getMonth = gridMonth sd, getDate = i + 1 \<rparr>, Current))
         [0 ..< daysInMonth sd]
     @ map (\<lambda>i. (\<lparr> getFullYear = nextYear (gridYear sd) (gridMonth sd),
                     getMonth = nextMonth (gridMonth sd),
                     getDate = i + 1 \<rparr>, Next))
         [0 ..< weeksNeeded sd * 7 - (startingDayOfWeek sd + daysInMonth sd)]"

text \<open>A timesheet with eight consulting hours on the 15th of March 2024, and that month.\<close>

definition exampleTimesheet :: timesheet where
  "exampleTimesheet =
     \<lparr> byDate = [ \<lparr> date = ''2024-03-15'', totalConsultingHours = Some 8, totalHandsOnHours = None,
                     totalSquadHours = None, totalInternalHours = None \<rparr> ],
       holidays = None \<rparr>"

definition march2024 :: jsDate where
  "march2024 = \<lparr> getFullYear = 2024, getMonth = 2, getDate = 15 \<rparr>"

text \<open>
  The number of selection fields that are active, and the selection events with the
  handler each one runs.
\<close>

definition activeCount :: "calendarState \<Rightarrow> nat" where
  "activeCount st =
     (if selectedDay st \<noteq> None then 1 else 0) + (if selectedRow st \<noteq> None then 1 else 0)
       + (if selectedColumn st \<noteq> None then 1 else 0) + (if isAllSelected st then 1 else 0)"

datatype selectionEvent =
  DayClick nat cellType nat
  | WeekTotalClick nat
  | HeaderClick nat
  | MonthNavigation int
  | StatTypeChange StatType

fun handleEvent :: "selectionEvent \<Rightarrow> calendarState \<Rightarrow> calendarState" where
  "handleEvent (DayClick d ty rowIndex) st = handleDayClick d ty rowIndex st"
| "handleEvent (WeekTotalClick rowIndex) st = handleRowSelect rowIndex st"
| "handleEvent (HeaderClick columnIndex) st = handleColumnSelect columnIndex st"
| "handleEvent (MonthNavigation increment) st = handleMonthChange increment st"
| "handleEvent (StatTypeChange newType) st = handleStatTypeChange newType st"

text \<open>The number a string of decimal digits denotes.\<close>

definition digitVal :: "char \<Rightarrow> nat" where
  "digitVal c = of_char c - 48"

definition digitsValue :: "string \<Rightarrow> nat" where
  "digitsValue s = foldl (\<lambda>a c. 10 * a + digitVal c) 0 s"

text \<open>The hours of a category in an entry of the timesheet, an absent total counting as 0.\<close>

definition entryHoursOf :: "StatType \<Rightarrow> dayEntry \<Rightarrow> rat" where
  "entryHoursOf c d =
     (case c of
        Consulting \<Rightarrow> orZero (totalConsultingHours d)
      | HandsOn \<Rightarrow> orZero (totalHandsOnHours d)
      | Squad \<Rightarrow> orZero (totalSquadHours d)
      | Internal \<Rightarrow> orZero (totalInternalHours d))"

text \<open>A timesheet whose only entry is of the 15th of March 2023.\<close>

definition lastYearTimesheet :: timesheet where
  "lastYearTimesheet =
     \<lparr> byDate = [ \<lparr> date = ''2023-03-15'', totalConsultingHours = Some 8, totalHandsOnHours = None,
                     totalSquadHours = None, totalInternalHours = None \<rparr> ],
       holidays = None \<rparr>"


text \<open>A selection state showing March 2024 with the consulting hours, the second row selected.\<close>

definition exampleState :: calendarState where
  "exampleState =
     \<lparr> selectedDate = march2024, selectedDay = None, selectedRow = Some 1, selectedColumn = None,
       isAllSelected = False, selectedStatType = Consulting \<rparr>"

section \<open>Properties of the summary table\<close>

subsection \<open>Sorting\<close>














subsection \<open>Cumulative fractions\<close>


lemma foldl_totalsStep:
  "foldl totalsStep acc items =
     \<lparr> t_regular = t_regular acc + sum_list (map regular items),
       t_preContracted = t_preContracted acc + sum_list (map preContracted items),
       t_total = t_total acc + sum_list (map total items),
       t_consultingFee = t_consultingFee acc + sum_list (map (\<lambda>i. orZero (consultingFee i)) items),
       t_consultingPreFee = t_consultingPreFee acc + sum_list (map (\<lambda>i. orZero (consultingPreFee i)) items),
       t_handsOnFee = t_handsOnFee acc + sum_list (map (\<lambda>i. orZero (handsOnFee i)) items),
       t_squadFee = t_squadFee acc + sum_list (map (\<lambda>i. orZero (squadFee i)) items) \<rparr>"
  by (induction items arbitrary: acc) (simp_all add: totalsStep_def)

lemma numberOf_numeric:
  "numberOf toNum KRegular = regular"
  "numberOf toNum KPreContracted = preContracted"
  "numberOf toNum KTotal = total"
  "numberOf toNum KConsultingFee = (\<lambda>i. orZero (consultingFee i))"
  "numberOf toNum KConsultingPreFee = (\<lambda>i. orZero (consultingPreFee i))"
  "numberOf toNum KHandsOnFee = (\<lambda>i. orZero (handsOnFee i))"
  "numberOf toNum KSquadFee = (\<lambda>i. orZero (squadFee i))"
  by (simp_all add: fun_eq_iff numberOf_def)

lemma totalsAt_totals:
  "isNumericKey k \<Longrightarrow> totalsAt (totals items) k = sum_list (map (numberOf toNum k) items)"
  by (cases k)
     (simp_all add: isNumericKey_def totals_def foldl_totalsStep totalsInit_def numberOf_numeric)












subsection \<open>Row shading\<close>









subsection \<open>Percentages and zero denominators\<close>

lemma all_less_4: "(\<forall>j<4::nat. P j) = (P 0 \<and> P 1 \<and> P 2 \<and> P 3)"
proof -
  have "\<And>j::nat. j < 4 \<longleftrightarrow> j = 0 \<or> j = 1 \<or> j = 2 \<or> j = 3"
    by arith
  then show ?thesis by auto
qed

lemma itemRow_fee_cells:
  "\<forall>j<4. (topPercent (itemRow items it ! j) \<noteq> None) = (numberOf toNum (feeKeys ! j) it \<noteq> 0)
        \<and> (bottomPercent (itemRow items it ! j) \<noteq> None) = (numberOf toNum (feeKeys ! j) it \<noteq> 0)"
  unfolding all_less_4
  by (simp add: itemRow_def Let_def feeKeys_def feeCell_def numberOf_numeric)

lemma itemRow_total_cell:
  "topPercent (itemRow items it ! 4) = None"
  "(bottomPercent (itemRow items it ! 4) \<noteq> None) = (total it \<noteq> 0)"
  by (simp_all add: itemRow_def Let_def)

lemma totalsRow_cells:
  "\<forall>j<4. (topPercent (totalsRow items ! j) \<noteq> None) = (totalsAt (totals items) (feeKeys ! j) \<noteq> 0)
        \<and> bottomPercent (totalsRow items ! j) = None"
  unfolding all_less_4
  by (simp add: totalsRow_def Let_def feeKeys_def totalFeeCell_def)

lemma totalsRow_total_cell:
  "topPercent (totalsRow items ! 4) = None \<and> bottomPercent (totalsRow items ! 4) = None"
  by (simp add: totalsRow_def Let_def)

lemma zero_total_zero_values:
  fixes f :: "item \<Rightarrow> rat"
  assumes "it \<in> set items" and "\<forall>i\<in>set items. 0 \<le> f i" and "sum_list (map f items) = 0"
  shows "f it = 0"
proof -
  have "sum_list (map f items) = 0 \<longleftrightarrow> (\<forall>x\<in>set (map f items). x = 0)"
    by (rule sum_list_nonneg_eq_0_iff) (use assms(2) in auto)
  with assms(1,3) show ?thesis by simp
qed

lemma isNumericKey_feeKeys: "j < 4 \<Longrightarrow> isNumericKey (feeKeys ! j)"
  using all_less_4 [of "\<lambda>j. isNumericKey (feeKeys ! j)"]
  by (simp add: feeKeys_def isNumericKey_def)

lemma column_zero_not_rendered:
  assumes j: "j < 4" and "it \<in> set items"
    and "\<forall>i\<in>set items. 0 \<le> numberOf toNum (feeKeys ! j) i"
    and "totalsAt (totals items) (feeKeys ! j) = 0"
  shows "bottomPercent (itemRow items it ! j) = None"
proof -
  have "sum_list (map (numberOf toNum (feeKeys ! j)) items) = 0"
    using assms(4) totalsAt_totals [OF isNumericKey_feeKeys [OF j], of items toNum] by simp
  then have "numberOf toNum (feeKeys ! j) it = 0"
    using zero_total_zero_values assms(2,3) by blast
  with itemRow_fee_cells [of items it toNum] j show ?thesis
    by blast
qed

lemma total_column_zero_not_rendered:
  assumes "it \<in> set items" and "\<forall>i\<in>set items. 0 \<le> total i" and "t_total (totals items) = 0"
  shows "bottomPercent (itemRow items it ! 4) = None"
proof -
  have "sum_list (map total items) = 0"
    using assms(3) by (simp add: totals_def foldl_totalsStep totalsInit_def)
  then have "total it = 0"
    using zero_total_zero_values assms(1,2) by blast
  then show ?thesis
    using itemRow_total_cell(2) [of items it] by blast
qed

text \<open>
  Claim C6, amended. In every cell of the summary table a percentage is rendered exactly
  when the cell's own value (an absent fee counting as 0) is not zero, whatever its
  denominator: in the fee cells and the total cell of an item's row, and in the cells of
  the row of totals. When the values of a column are all non-negative and the column's
  grand total is zero, no percentage of the column's total is rendered in that column.
\<close>

theorem C6_percentage_rendered_iff_value_nonzero:
  "(\<forall>j<4. (topPercent (itemRow items it ! j) \<noteq> None) = (numberOf toNum (feeKeys ! j) it \<noteq> 0)
         \<and> (bottomPercent (itemRow items it ! j) \<noteq> None) = (numberOf toNum (feeKeys ! j) it \<noteq> 0))
   \<and> topPercent (itemRow items it ! 4) = None
   \<and> (bottomPercent (itemRow items it ! 4) \<noteq> None) = (total it \<noteq> 0)
   \<and> (\<forall>j<4. (topPercent (totalsRow items ! j) \<noteq> None) = (totalsAt (totals items) (feeKeys ! j) \<noteq> 0)
         \<and> bottomPercent (totalsRow items ! j) = None)
   \<and> topPercent (totalsRow items ! 4) = None
   \<and> bottomPercent (totalsRow items ! 4) = None
   \<and> (\<forall>j<4. it \<in> set items \<and> (\<forall>i\<in>set items. 0 \<le> numberOf toNum (feeKeys ! j) i)
             \<and> totalsAt (totals items) (feeKeys ! j) = 0
          \<longrightarrow> bottomPercent (itemRow items it ! j) = None)
   \<and> (it \<in> set items \<and> (\<forall>i\<in>set items. 0 \<le> total i) \<and> t_total (totals items) = 0
        \<longrightarrow> bottomPercent (itemRow items it ! 4) = None)"
proof (intro conjI)
  show "\<forall>j<4. (topPercent (itemRow items it ! j) \<noteq> None) = (numberOf toNum (feeKeys ! j) it \<noteq> 0)
         \<and> (bottomPercent (itemRow items it ! j) \<noteq> None) = (numberOf toNum (feeKeys ! j) it \<noteq> 0)"
    by (rule itemRow_fee_cells)
  show "topPercent (itemRow items it ! 4) = None"
    by (rule itemRow_total_cell(1))
  show "(bottomPercent (itemRow items it ! 4) \<noteq> None) = (total it \<noteq> 0)"
    by (rule itemRow_total_cell(2))
  show "\<forall>j<4. (topPercent (totalsRow items ! j) \<noteq> None) = (totalsAt (totals items) (feeKeys ! j) \<noteq> 0)
         \<and> bottomPercent (totalsRow items ! j) = None"
    by (rule totalsRow_cells)
  show "topPercent (totalsRow items ! 4) = None" "bottomPercent (totalsRow items ! 4) = None"
    using totalsRow_total_cell by simp_all
  show "\<forall>j<4. it \<in> set items \<and> (\<forall>i\<in>set items. 0 \<le> numberOf toNum (feeKeys ! j) i)
             \<and> totalsAt (totals items) (feeKeys ! j) = 0
          \<longrightarrow> bottomPercent (itemRow items it ! j) = None"
    using column_zero_not_rendered by blast
  show "it \<in> set items \<and> (\<forall>i\<in>set items. 0 \<le> total i) \<and> t_total (totals items) = 0
        \<longrightarrow> bottomPercent (itemRow items it ! 4) = None"
    using total_column_zero_not_rendered by blast
qed

text \<open>
  Claim C6 as stated fails: an item with a consulting fee of 5 and a total of 0 shows
  the percentage of the row's total, the quotient by zero.
\<close>

theorem C6_zero_row_total_counterexample:
  "total zeroTotalItem = 0
   \<and> topPercent (itemRow [zeroTotalItem] zeroTotalItem ! 0) = Some PosInf"
  by code_simp

text \<open>
  The example items: the consulting cell of item A shows its percentages; the squad
  column, whose total is zero, shows none.
\<close>

theorem C6_percentage_rendered_iff_value_nonzero_witness:
  "(0::nat) < 4 \<and> (3::nat) < 4
   \<and> exampleItems ! 1 \<in> set exampleItems
   \<and> list_all (\<lambda>i. 0 \<le> numberOf noNumber (feeKeys ! 3) i) exampleItems
   \<and> totalsAt (totals exampleItems) (feeKeys ! 3) = 0
   \<and> numberOf noNumber (feeKeys ! 0) (exampleItems ! 1) \<noteq> 0
   \<and> topPercent (itemRow exampleItems (exampleItems ! 1) ! 0) \<noteq> None
   \<and> bottomPercent (itemRow exampleItems (exampleItems ! 1) ! 3) = None"
proof -
  have h1: "exampleItems ! 1 \<in> set exampleItems"
    by (simp add: exampleItems_def)
  have h2: "\<forall>i\<in>set exampleItems. 0 \<le> numberOf noNumber (feeKeys ! 3) i"
    by (simp add: exampleItems_def feeKeys_def numberOf_def orZero_def)
  have h3: "totalsAt (totals exampleItems) (feeKeys ! 3) = 0"
    by (simp add: exampleItems_def feeKeys_def totals_def totalsStep_def totalsInit_def orZero_def)
  have h4: "numberOf noNumber (feeKeys ! 0) (exampleItems ! 1) \<noteq> 0"
    by (simp add: exampleItems_def feeKeys_def numberOf_def orZero_def)
  note c6 = C6_percentage_rendered_iff_value_nonzero [of exampleItems "exampleItems ! 1" noNumber]
  have "topPercent (itemRow exampleItems (exampleItems ! 1) ! 0) \<noteq> None"
    using c6 h4 by simp
  moreover have "bottomPercent (itemRow exampleItems (exampleItems ! 1) ! 3) = None"
    using c6 h1 h2 h3 by simp
  ultimately show ?thesis
    using h1 h2 h3 h4 by (simp add: list_all_iff)
qed

section \<open>Properties of the allocation calendar\<close>

subsection \<open>Dates and the layout of the grid\<close>

lemma daysInMonthOf_bounds: "28 \<le> daysInMonthOf y m" "daysInMonthOf y m \<le> 31"
  by (simp_all add: daysInMonthOf_def)

lemma normDay_in_range:
  "1 \<le> d \<Longrightarrow> d \<le> int (daysInMonthOf y m) \<Longrightarrow>
     normDay y m d = \<lparr> getFullYear = y, getMonth = m, getDate = nat d \<rparr>"
  by (subst normDay.simps) simp

lemma normDay_below:
  assumes "d < 1" and "- 27 \<le> d"
  shows "normDay y m d =
           \<lparr> getFullYear = prevYear y m, getMonth = prevMonth m,
             getDate = nat (d + int (daysInMonthOf (prevYear y m) (prevMonth m))) \<rparr>"
proof -
  have lo: "1 \<le> d + int (daysInMonthOf (prevYear y m) (prevMonth m))"
    using assms(2) daysInMonthOf_bounds(1) [of "prevYear y m" "prevMonth m"] by linarith
  have hi: "d + int (daysInMonthOf (prevYear y m) (prevMonth m))
              \<le> int (daysInMonthOf (prevYear y m) (prevMonth m))"
    using assms(1) by simp
  have "normDay y m d
          = normDay (prevYear y m) (prevMonth m) (d + int (daysInMonthOf (prevYear y m) (prevMonth m)))"
    using assms(1) by (subst normDay.simps) simp
  then show ?thesis
    by (simp add: normDay_in_range [OF lo hi])
qed

lemma effectiveMonth_less: "effectiveMonth sd < 12"
  by (simp add: effectiveMonth_def)

lemma newDate_current:
  "newDate (currentYear sd) (currentMonth sd) d = normDay (effectiveYear sd) (effectiveMonth sd) d"
  by (simp add: newDate_def makeDay_def currentYear_def currentMonth_def effectiveYear_def
      effectiveMonth_def nat_mod_distrib zmod_int)

lemma month_carry_mod:
  "(k + 1) mod 12 = (if 11 \<le> k mod 12 then 0 else k mod 12 + (1::nat))"
  using mod_less_divisor [of 12 k] by (auto simp: mod_Suc)

lemma month_carry_div:
  "(k + 1) div 12 = (if 11 \<le> k mod 12 then k div 12 + 1 else k div (12::nat))"
  using mod_less_divisor [of 12 k] by (auto simp: div_Suc mod_Suc)

lemma nat_int_succ_mod: "nat ((int k + 1) mod 12) = (k + 1) mod 12"
proof -
  have "int ((k + 1) mod 12) = (int k + 1) mod 12"
    unfolding zmod_int by (simp add: add.commute)
  then have "nat ((int k + 1) mod 12) = nat (int ((k + 1) mod 12))"
    by (rule arg_cong [OF sym])
  then show ?thesis
    by (simp only: nat_int)
qed

lemma int_succ_div: "(int k + 1) div 12 = int ((k + 1) div 12)"
  by simp

lemma newDate_next:
  "newDate (currentYear sd) (currentMonth sd + 1) d
     = normDay (nextYear (effectiveYear sd) (effectiveMonth sd)) (nextMonth (effectiveMonth sd)) d"
proof -
  let ?k = "getMonth sd"
  have y: "(if 0 \<le> getFullYear sd \<and> getFullYear sd \<le> 99 then 1900 + getFullYear sd else getFullYear sd)
             + (int ?k + 1) div 12
           = nextYear (effectiveYear sd) (effectiveMonth sd)"
    unfolding int_succ_div month_carry_div nextYear_def effectiveYear_def effectiveMonth_def
    by simp
  have m: "nat ((int ?k + 1) mod 12) = nextMonth (effectiveMonth sd)"
    unfolding nat_int_succ_mod month_carry_mod nextMonth_def effectiveMonth_def by simp
  show ?thesis
    unfolding newDate_def makeDay_def currentYear_def currentMonth_def y m ..
qed

lemma prev_of_next:
  "m < 12 \<Longrightarrow> prevYear (nextYear y m) (nextMonth m) = y"
  "m < 12 \<Longrightarrow> prevMonth (nextMonth m) = m"
  by (auto simp: prevYear_def nextYear_def nextMonth_def prevMonth_def)

lemma firstDayOfMonth_eq:
  "firstDayOfMonth sd = \<lparr> getFullYear = effectiveYear sd, getMonth = effectiveMonth sd, getDate = 1 \<rparr>"
  using daysInMonthOf_bounds(1) [of "effectiveYear sd" "effectiveMonth sd"]
  by (simp add: firstDayOfMonth_def newDate_current normDay_in_range)

lemma lastDayOfMonth_eq:
  "lastDayOfMonth sd =
     \<lparr> getFullYear = effectiveYear sd, getMonth = effectiveMonth sd,
       getDate = daysInMonthOf (effectiveYear sd) (effectiveMonth sd) \<rparr>"
  by (simp add: lastDayOfMonth_def newDate_next normDay_below prev_of_next effectiveMonth_less)

lemma gridYear_eq: "gridYear sd = effectiveYear sd"
  by (simp add: gridYear_def firstDayOfMonth_eq)

lemma gridMonth_eq: "gridMonth sd = effectiveMonth sd"
  by (simp add: gridMonth_def firstDayOfMonth_eq)

lemma daysInMonth_eq: "daysInMonth sd = daysInMonthOf (effectiveYear sd) (effectiveMonth sd)"
  by (simp add: daysInMonth_def lastDayOfMonth_eq)

lemma startingDayOfWeek_less: "startingDayOfWeek sd < 7"
  by (simp add: startingDayOfWeek_def getDay_def nat_less_iff)

lemma ceil_div_7: "nat \<lceil>(of_nat n :: rat) / 7\<rceil> = (n + 6) div 7"
proof -
  have "\<lceil>(of_nat n :: rat) / 7\<rceil> = \<lceil>(of_int (int n) :: rat) / of_int 7\<rceil>"
    by simp
  also have "\<dots> = - (- int n div 7)"
    by (rule ceiling_divide_eq_div)
  also have "\<dots> = (int n + 6) div 7"
    by presburger
  finally show ?thesis
    by (simp add: nat_div_distrib nat_add_distrib)
qed

lemma weeksNeeded_eq: "weeksNeeded sd = (startingDayOfWeek sd + daysInMonth sd + 6) div 7"
  unfolding weeksNeeded_def totalDays_def by (rule ceil_div_7)

lemma ceil7_cover: "(n::nat) \<le> (n + 6) div 7 * 7"
  by presburger

lemma ceil7_tight: "0 < (n::nat) \<Longrightarrow> ((n + 6) div 7 - 1) * 7 < n"
  by presburger

lemma weeks_cover: "startingDayOfWeek sd + daysInMonth sd \<le> weeksNeeded sd * 7"
  unfolding weeksNeeded_eq by (rule ceil7_cover)

lemma weeks_tight: "(weeksNeeded sd - 1) * 7 < startingDayOfWeek sd + daysInMonth sd"
proof -
  have "0 < daysInMonth sd"
    using daysInMonthOf_bounds(1) [of "effectiveYear sd" "effectiveMonth sd"]
    by (simp add: daysInMonth_eq)
  then have "0 < startingDayOfWeek sd + daysInMonth sd"
    by simp
  then show ?thesis
    unfolding weeksNeeded_eq by (rule ceil7_tight)
qed


lemma rev_map_upt: "rev (map f [0 ..< n]) = map (\<lambda>i. f (n - 1 - i)) [0 ..< n]"
  by (rule nth_equalityI) (simp_all add: rev_nth)

lemma prevMonthLength_bounds: "28 \<le> prevMonthLength sd"
  by (simp add: prevMonthLength_def daysInMonthOf_bounds)

lemma previousMonthDays_eq:
  "previousMonthDays ts sd =
     map (\<lambda>i. dayCell ts \<lparr> getFullYear = prevYear (gridYear sd) (gridMonth sd),
                            getMonth = prevMonth (gridMonth sd),
                            getDate = prevMonthLength sd - startingDayOfWeek sd + 1 + i \<rparr>
                  (prevMonthLength sd - startingDayOfWeek sd + 1 + i) Prev)
       [0 ..< startingDayOfWeek sd]"
proof -
  let ?s = "startingDayOfWeek sd"
  have s7: "?s < 7" by (rule startingDayOfWeek_less)
  have cell: "(let dt = newDate (currentYear sd) (currentMonth sd) (- int (?s - 1 - i))
               in dayCell ts dt (getDate dt) Prev)
              = dayCell ts \<lparr> getFullYear = prevYear (gridYear sd) (gridMonth sd),
                              getMonth = prevMonth (gridMonth sd),
                              getDate = prevMonthLength sd - ?s + 1 + i \<rparr>
                    (prevMonthLength sd - ?s + 1 + i) Prev"
    if "i < ?s" for i
  proof -
    have le: "- 27 \<le> - int (?s - 1 - i)" and lt: "- int (?s - 1 - i) < 1"
      using s7 by simp_all
    have day: "nat (- int (?s - 1 - i)
                    + int (daysInMonthOf (prevYear (effectiveYear sd) (effectiveMonth sd))
                             (prevMonth (effectiveMonth sd))))
               = prevMonthLength sd - ?s + 1 + i"
      using that s7 prevMonthLength_bounds [of sd]
      unfolding prevMonthLength_def gridYear_eq gridMonth_eq by linarith
    have dt: "newDate (currentYear sd) (currentMonth sd) (- int (?s - 1 - i))
              = \<lparr> getFullYear = prevYear (gridYear sd) (gridMonth sd),
                  getMonth = prevMonth (gridMonth sd),
                  getDate = prevMonthLength sd - ?s + 1 + i \<rparr>"
      unfolding newDate_current normDay_below [OF lt le] day gridYear_eq gridMonth_eq
      by (rule refl)
    show ?thesis
      unfolding Let_def dt by simp
  qed
  show ?thesis
    unfolding previousMonthDays_def rev_map_upt
  proof (rule map_cong [OF refl])
    fix i
    assume "i \<in> set [0 ..< ?s]"
    then have "i < ?s" by simp
    then show "(let dt = newDate (currentYear sd) (currentMonth sd) (- int (?s - 1 - i))
                in dayCell ts dt (getDate dt) Prev)
              = dayCell ts \<lparr> getFullYear = prevYear (gridYear sd) (gridMonth sd),
                              getMonth = prevMonth (gridMonth sd),
                              getDate = prevMonthLength sd - ?s + 1 + i \<rparr>
                    (prevMonthLength sd - ?s + 1 + i) Prev"
      by (rule cell)
  qed
qed

lemma currentMonthDays_eq:
  "currentMonthDays ts sd =
     map (\<lambda>i. dayCell ts \<lparr> getFullYear = gridYear sd, getMonth = gridMonth sd, getDate = i + 1 \<rparr>
                  (i + 1) Current)
       [0 ..< daysInMonth sd]"
  unfolding currentMonthDays_def
  by (rule map_cong)
     (simp_all add: Let_def newDate_current normDay_in_range daysInMonth_eq gridYear_eq gridMonth_eq
        nat_add_distrib)

lemma length_previousMonthDays: "length (previousMonthDays ts sd) = startingDayOfWeek sd"
  by (simp add: previousMonthDays_def)

lemma length_currentMonthDays: "length (currentMonthDays ts sd) = daysInMonth sd"
  by (simp add: currentMonthDays_def)

lemma remainingDays_eq:
  "remainingDays ts sd = weeksNeeded sd * 7 - (startingDayOfWeek sd + daysInMonth sd)"
  by (simp add: remainingDays_def totalCells_def length_previousMonthDays length_currentMonthDays)

lemma remainingDays_less: "remainingDays ts sd < 7"
  using weeks_tight [of sd] unfolding remainingDays_eq
  by (cases "weeksNeeded sd") simp_all

lemma nextMonthDays_eq:
  "nextMonthDays ts sd =
     map (\<lambda>i. dayCell ts \<lparr> getFullYear = nextYear (gridYear sd) (gridMonth sd),
                            getMonth = nextMonth (gridMonth sd), getDate = i + 1 \<rparr>
                  (i + 1) Next)
       [0 ..< weeksNeeded sd * 7 - (startingDayOfWeek sd + daysInMonth sd)]"
proof -
  have cell: "(let dt = newDate (currentYear sd) (currentMonth sd + 1) (int i + 1)
               in dayCell ts dt (i + 1) Next)
              = dayCell ts \<lparr> getFullYear = nextYear (gridYear sd) (gridMonth sd),
                              getMonth = nextMonth (gridMonth sd), getDate = i + 1 \<rparr>
                    (i + 1) Next"
    if "i < remainingDays ts sd" for i
  proof -
    have "i < 7" using that remainingDays_less [of ts sd] by simp
    then have hi: "int i + 1 \<le> int (daysInMonthOf (nextYear (effectiveYear sd) (effectiveMonth sd))
                                       (nextMonth (effectiveMonth sd)))"
      using daysInMonthOf_bounds(1) [of "nextYear (effectiveYear sd) (effectiveMonth sd)"
          "nextMonth (effectiveMonth sd)"] by linarith
    have lo: "1 \<le> int i + 1" by simp
    show ?thesis
      by (simp add: Let_def newDate_next normDay_in_range [OF lo hi] gridYear_eq gridMonth_eq
          nat_add_distrib)
  qed
  have "map (\<lambda>i. let dt = newDate (currentYear sd) (currentMonth sd + 1) (int i + 1)
                 in dayCell ts dt (i + 1) Next) [0 ..< remainingDays ts sd]
        = map (\<lambda>i. dayCell ts \<lparr> getFullYear = nextYear (gridYear sd) (gridMonth sd),
                                getMonth = nextMonth (gridMonth sd), getDate = i + 1 \<rparr>
                      (i + 1) Next) [0 ..< remainingDays ts sd]"
  proof (rule map_cong [OF refl])
    fix i
    assume "i \<in> set [0 ..< remainingDays ts sd]"
    then have "i < remainingDays ts sd" by simp
    then show "(let dt = newDate (currentYear sd) (currentMonth sd + 1) (int i + 1)
               in dayCell ts dt (i + 1) Next)
              = dayCell ts \<lparr> getFullYear = nextYear (gridYear sd) (gridMonth sd),
                              getMonth = nextMonth (gridMonth sd), getDate = i + 1 \<rparr>
                    (i + 1) Next"
      by (rule cell)
  qed
  then show ?thesis
    by (simp only: nextMonthDays_def remainingDays_eq)
qed

lemma allDays_eq:
  "allDays ts sd = map (\<lambda>(dt, ty). dayCell ts dt (getDate dt) ty) (gridCells sd)"
  by (simp add: allDays_def gridCells_def previousMonthDays_eq currentMonthDays_eq
      nextMonthDays_eq o_def)

lemma length_allDays: "length (allDays ts sd) = weeksNeeded sd * 7"
  using weeks_cover [of sd]
  by (simp add: allDays_def previousMonthDays_eq currentMonthDays_eq nextMonthDays_eq)


lemma dayCell_fields:
  "type (dayCell ts dt d ty) = ty"
  "day (dayCell ts dt d ty) = Some d"
  "cellHours (dayCell ts dt d ty) = getHoursForDate ts dt"
  by (simp_all add: dayCell_def Let_def)

lemma allDays_prev_nth:
  assumes "i < startingDayOfWeek sd"
  shows "allDays ts sd ! i =
           dayCell ts \<lparr> getFullYear = prevYear (gridYear sd) (gridMonth sd),
                         getMonth = prevMonth (gridMonth sd),
                         getDate = prevMonthLength sd - startingDayOfWeek sd + 1 + i \<rparr>
             (prevMonthLength sd - startingDayOfWeek sd + 1 + i) Prev"
  using assms
  by (simp add: allDays_def nth_append length_previousMonthDays)
     (simp add: previousMonthDays_eq)

lemma allDays_current_nth:
  assumes "i < daysInMonth sd"
  shows "allDays ts sd ! (startingDayOfWeek sd + i) =
           dayCell ts \<lparr> getFullYear = gridYear sd, getMonth = gridMonth sd, getDate = i + 1 \<rparr>
             (i + 1) Current"
  using assms
  by (simp add: allDays_def nth_append length_previousMonthDays length_currentMonthDays)
     (simp add: currentMonthDays_eq)

lemma allDays_next_nth:
  assumes "startingDayOfWeek sd + daysInMonth sd + i < weeksNeeded sd * 7"
  shows "allDays ts sd ! (startingDayOfWeek sd + daysInMonth sd + i) =
           dayCell ts \<lparr> getFullYear = nextYear (gridYear sd) (gridMonth sd),
                         getMonth = nextMonth (gridMonth sd), getDate = i + 1 \<rparr>
             (i + 1) Next"
proof -
  have "i < weeksNeeded sd * 7 - (startingDayOfWeek sd + daysInMonth sd)"
    using assms by simp
  then have "nextMonthDays ts sd ! i =
           dayCell ts \<lparr> getFullYear = nextYear (gridYear sd) (gridMonth sd),
                         getMonth = nextMonth (gridMonth sd), getDate = i + 1 \<rparr>
             (i + 1) Next"
    by (simp add: nextMonthDays_eq)
  then show ?thesis
    by (simp add: allDays_def nth_append length_previousMonthDays length_currentMonthDays)
qed

lemma slice_nth: "a + j < length xs \<Longrightarrow> j < b - a \<Longrightarrow> slice xs a b ! j = xs ! (a + j)"
  by (simp add: slice_def)

lemma length_slice: "b \<le> length xs \<Longrightarrow> length (slice xs a b) = b - a"
  by (simp add: slice_def)

lemma length_rowsOf: "length (rowsOf days weeks) = weeks"
  by (simp add: rowsOf_def)

lemma rowsOf_nth:
  assumes "w < weeks"
  shows "rowsOf days weeks ! w =
           slice days (w * 7) ((w + 1) * 7) @ [totalCell (weekTotalOf (slice days (w * 7) ((w + 1) * 7)))]"
  using assms by (simp add: rowsOf_def Let_def)

lemma rowsOf_cell:
  assumes "w < weeks" and "length days = weeks * 7" and "j < 7"
  shows "rowsOf days weeks ! w ! j = days ! (w * 7 + j)"
proof -
  have le: "(w + 1) * 7 \<le> length days"
    using assms(1,2) by simp
  have "w * 7 + j < length days"
    using le assms(3) by simp
  then show ?thesis
    using assms(3) le
    by (simp add: rowsOf_nth [OF assms(1)] nth_append length_slice slice_nth)
qed

lemma weeksNeeded_pos: "0 < weeksNeeded sd"
  using weeks_cover [of sd] daysInMonthOf_bounds(1) [of "effectiveYear sd" "effectiveMonth sd"]
  by (cases "weeksNeeded sd") (simp_all add: daysInMonth_eq)

lemma first_row_has_current:
  "\<exists>j<7. type (rows ts sd ! 0 ! j) = Current"
proof -
  have s7: "startingDayOfWeek sd < 7" by (rule startingDayOfWeek_less)
  have "0 < daysInMonth sd"
    using daysInMonthOf_bounds(1) [of "effectiveYear sd" "effectiveMonth sd"]
    by (simp add: daysInMonth_eq)
  from allDays_current_nth [OF this, of ts]
  have "type (allDays ts sd ! startingDayOfWeek sd) = Current"
    by (simp add: dayCell_fields)
  moreover have "rows ts sd ! 0 ! startingDayOfWeek sd = allDays ts sd ! (0 * 7 + startingDayOfWeek sd)"
    unfolding rows_def by (rule rowsOf_cell [OF weeksNeeded_pos length_allDays s7])
  ultimately show ?thesis
    using s7 by auto
qed

lemma last_row_has_current:
  "\<exists>j<7. type (rows ts sd ! (weeksNeeded sd - 1) ! j) = Current"
proof -
  let ?w = "weeksNeeded sd - 1"
  let ?n = "startingDayOfWeek sd + daysInMonth sd"
  have pos: "0 < daysInMonth sd"
    using daysInMonthOf_bounds(1) [of "effectiveYear sd" "effectiveMonth sd"]
    by (simp add: daysInMonth_eq)
  have w: "?w < weeksNeeded sd"
    using weeksNeeded_pos [of sd] by simp
  have lo: "?w * 7 < ?n" by (rule weeks_tight)
  have hi: "?n \<le> weeksNeeded sd * 7" by (rule weeks_cover)
  define j where "j = ?n - 1 - ?w * 7"
  have j7: "j < 7"
    using lo hi w unfolding j_def by (cases "weeksNeeded sd") simp_all
  have idx: "?w * 7 + j = startingDayOfWeek sd + (daysInMonth sd - 1)"
    using lo pos unfolding j_def by simp
  have "daysInMonth sd - 1 < daysInMonth sd"
    using pos by simp
  from allDays_current_nth [OF this, of ts]
  have "type (allDays ts sd ! (?w * 7 + j)) = Current"
    unfolding idx by (simp add: dayCell_fields)
  moreover have "rows ts sd ! ?w ! j = allDays ts sd ! (?w * 7 + j)"
    unfolding rows_def by (rule rowsOf_cell [OF w length_allDays j7])
  ultimately show ?thesis
    using j7 by auto
qed

text \<open>
  Claim C4. For every reference month the grid has \<open>weeksNeeded * 7\<close> day cells,
  where \<open>weeksNeeded\<close> is the ceiling of (starting weekday + days in month) / 7. Its
  first cells, as many as the starting weekday of the month, are the last days of the
  previous month in ascending order; the next cells are the days 1 to
  \<open>daysInMonth\<close> of the displayed month; the remaining cells are the first days of
  the next month. The first and the last row each contain a day of the displayed month.
\<close>

theorem C4_grid_layout:
  "length (allDays ts sd) = weeksNeeded sd * 7
   \<and> weeksNeeded sd = nat \<lceil>(of_nat (startingDayOfWeek sd + daysInMonth sd) :: rat) / 7\<rceil>
   \<and> weeksNeeded sd = (startingDayOfWeek sd + daysInMonth sd + 6) div 7
   \<and> startingDayOfWeek sd = getDay (firstDayOfMonth sd)
   \<and> startingDayOfWeek sd < 7
   \<and> daysInMonth sd = daysInMonthOf (gridYear sd) (gridMonth sd)
   \<and> (\<forall>i < startingDayOfWeek sd.
         type (allDays ts sd ! i) = Prev
         \<and> day (allDays ts sd ! i) = Some (prevMonthLength sd - startingDayOfWeek sd + 1 + i))
   \<and> (\<forall>i < daysInMonth sd.
         type (allDays ts sd ! (startingDayOfWeek sd + i)) = Current
         \<and> day (allDays ts sd ! (startingDayOfWeek sd + i)) = Some (i + 1))
   \<and> (\<forall>i. startingDayOfWeek sd + daysInMonth sd + i < weeksNeeded sd * 7 \<longrightarrow>
         type (allDays ts sd ! (startingDayOfWeek sd + daysInMonth sd + i)) = Next
         \<and> day (allDays ts sd ! (startingDayOfWeek sd + daysInMonth sd + i)) = Some (i + 1))
   \<and> length (rows ts sd) = weeksNeeded sd
   \<and> 0 < weeksNeeded sd
   \<and> (\<exists>j<7. type (rows ts sd ! 0 ! j) = Current)
   \<and> (\<exists>j<7. type (rows ts sd ! (weeksNeeded sd - 1) ! j) = Current)"
proof (intro conjI allI impI)
  show "length (allDays ts sd) = weeksNeeded sd * 7"
    by (rule length_allDays)
  show "weeksNeeded sd = nat \<lceil>(of_nat (startingDayOfWeek sd + daysInMonth sd) :: rat) / 7\<rceil>"
    by (simp only: weeksNeeded_def totalDays_def)
  show "weeksNeeded sd = (startingDayOfWeek sd + daysInMonth sd + 6) div 7"
    by (rule weeksNeeded_eq)
  show "startingDayOfWeek sd = getDay (firstDayOfMonth sd)"
    by (rule startingDayOfWeek_def)
  show "startingDayOfWeek sd < 7"
    by (rule startingDayOfWeek_less)
  show "daysInMonth sd = daysInMonthOf (gridYear sd) (gridMonth sd)"
    by (simp add: daysInMonth_eq gridYear_eq gridMonth_eq)
  show "length (rows ts sd) = weeksNeeded sd"
    by (simp add: rows_def length_rowsOf)
  show "0 < weeksNeeded sd"
    by (rule weeksNeeded_pos)
  show "\<exists>j<7. type (rows ts sd ! 0 ! j) = Current"
    by (rule first_row_has_current)
  show "\<exists>j<7. type (rows ts sd ! (weeksNeeded sd - 1) ! j) = Current"
    by (rule last_row_has_current)
next
  fix i
  assume "i < startingDayOfWeek sd"
  then show "type (allDays ts sd ! i) = Prev"
    and "day (allDays ts sd ! i) = Some (prevMonthLength sd - startingDayOfWeek sd + 1 + i)"
    by (simp_all add: allDays_prev_nth dayCell_fields)
next
  fix i
  assume "i < daysInMonth sd"
  then show "type (allDays ts sd ! (startingDayOfWeek sd + i)) = Current"
    and "day (allDays ts sd ! (startingDayOfWeek sd + i)) = Some (i + 1)"
    by (simp_all add: allDays_current_nth dayCell_fields)
next
  fix i
  assume "startingDayOfWeek sd + daysInMonth sd + i < weeksNeeded sd * 7"
  then show "type (allDays ts sd ! (startingDayOfWeek sd + daysInMonth sd + i)) = Next"
    and "day (allDays ts sd ! (startingDayOfWeek sd + daysInMonth sd + i)) = Some (i + 1)"
    by (simp_all add: allDays_next_nth dayCell_fields)
qed


text \<open>March 2024 begins on a Friday; February 2024 has 29 days.\<close>

lemma march2024_values:
  "startingDayOfWeek march2024 = 5"
  "daysInMonth march2024 = 31"
  "weeksNeeded march2024 = 6"
  "prevMonthLength march2024 = 29"
  by code_simp+

theorem C4_grid_layout_witness:
  "(0::nat) < startingDayOfWeek march2024
   \<and> (14::nat) < daysInMonth march2024
   \<and> startingDayOfWeek march2024 + daysInMonth march2024 + 0 < weeksNeeded march2024 * 7
   \<and> type (allDays exampleTimesheet march2024 ! 0) = Prev
   \<and> day (allDays exampleTimesheet march2024 ! 0) = Some 25
   \<and> type (allDays exampleTimesheet march2024 ! 19) = Current
   \<and> day (allDays exampleTimesheet march2024 ! 19) = Some 15
   \<and> type (allDays exampleTimesheet march2024 ! 36) = Next
   \<and> day (allDays exampleTimesheet march2024 ! 36) = Some 1
   \<and> length (allDays exampleTimesheet march2024) = 42"
proof -
  have h1: "(0::nat) < startingDayOfWeek march2024"
    and h2: "(14::nat) < daysInMonth march2024"
    and h3: "startingDayOfWeek march2024 + daysInMonth march2024 + 0 < weeksNeeded march2024 * 7"
    by (simp_all add: march2024_values)
  note c4 = C4_grid_layout [of exampleTimesheet march2024]
  from c4 h1 have p: "type (allDays exampleTimesheet march2024 ! 0) = Prev
      \<and> day (allDays exampleTimesheet march2024 ! 0)
          = Some (prevMonthLength march2024 - startingDayOfWeek march2024 + 1 + 0)"
    by blast
  from c4 h2 have c: "type (allDays exampleTimesheet march2024 ! (startingDayOfWeek march2024 + 14)) = Current
      \<and> day (allDays exampleTimesheet march2024 ! (startingDayOfWeek march2024 + 14)) = Some (14 + 1)"
    by blast
  from c4 h3 have n: "type (allDays exampleTimesheet march2024
                        ! (startingDayOfWeek march2024 + daysInMonth march2024 + 0)) = Next
      \<and> day (allDays exampleTimesheet march2024
                ! (startingDayOfWeek march2024 + daysInMonth march2024 + 0)) = Some (0 + 1)"
    by blast
  from c4 have l: "length (allDays exampleTimesheet march2024) = weeksNeeded march2024 * 7"
    by blast
  from p c n l h1 h2 h3 show ?thesis
    by (simp add: march2024_values)
qed

subsection \<open>Selection\<close>

text \<open>
  Claim C5. After any single selection event at most one of \<open>selectedDay\<close>,
  \<open>selectedRow\<close>, \<open>selectedColumn\<close> and \<open>isAllSelected\<close> is active: each
  selection handler sets its own field and clears the other three, and the change of
  month and the change of statistic type clear all four.
\<close>

theorem C5_single_selection:
  "activeCount (handleEvent ev st) \<le> 1
   \<and> selectedDay (handleDayClick d ty rowIndex st) = Some d
   \<and> selectedRow (handleDayClick d ty rowIndex st) = None
   \<and> selectedColumn (handleDayClick d ty rowIndex st) = None
   \<and> isAllSelected (handleDayClick d ty rowIndex st) = False
   \<and> selectedRow (handleRowSelect rowIndex st) = Some rowIndex
   \<and> selectedDay (handleRowSelect rowIndex st) = None
   \<and> selectedColumn (handleRowSelect rowIndex st) = None
   \<and> isAllSelected (handleRowSelect rowIndex st) = False
   \<and> selectedColumn (handleColumnSelect columnIndex st)
        = (if columnIndex = 7 then None else Some columnIndex)
   \<and> isAllSelected (handleColumnSelect columnIndex st) = (columnIndex = 7)
   \<and> selectedDay (handleColumnSelect columnIndex st) = None
   \<and> selectedRow (handleColumnSelect columnIndex st) = None
   \<and> activeCount (handleMonthChange increment st) = 0
   \<and> activeCount (handleStatTypeChange newType st) = 0"
  by (cases ev)
     (simp_all add: activeCount_def handleDayClick_def handleRowSelect_def handleColumnSelect_def
        handleMonthChange_def handleStatTypeChange_def Let_def)

subsection \<open>The formatted date determines the date\<close>

lemma digit_cases: "n < 10 \<Longrightarrow> n \<in> {0, 1, 2, 3, 4, 5, 6, 7, 8, 9::nat}"
  by auto

lemma digitVal_digitChar: "n < 10 \<Longrightarrow> digitVal (digitChar n) = n"
  by (drule digit_cases) (auto simp: digitVal_def digitChar_def)

lemma digitChar_not_minus: "n < 10 \<Longrightarrow> digitChar n \<noteq> CHR ''-''"
  by (drule digit_cases) (auto simp: digitChar_def)

lemma digitsValue_snoc: "digitsValue (s @ [c]) = 10 * digitsValue s + digitVal c"
  by (simp add: digitsValue_def)

lemma digitsValue_natToString: "digitsValue (natToString n) = n"
proof (induction n rule: natToString.induct)
  case (1 n)
  show ?case
  proof (cases "n < 10")
    case True
    then show ?thesis
      by (subst natToString.simps) (simp add: digitsValue_def digitVal_digitChar)
  next
    case False
    then have "digitsValue (natToString (n div 10)) = n div 10"
      using "1" by simp
    with False show ?thesis
      by (subst natToString.simps) (simp add: digitsValue_snoc digitVal_digitChar)
  qed
qed

lemma natToString_inj: "natToString a = natToString b \<Longrightarrow> a = b"
  by (metis digitsValue_natToString)

lemma natToString_no_minus: "CHR ''-'' \<notin> set (natToString n)"
proof (induction n rule: natToString.induct)
  case (1 n)
  show ?case
  proof (cases "n < 10")
    case True
    then show ?thesis
      using digitChar_not_minus [of n] by (subst natToString.simps) auto
  next
    case False
    then have "CHR ''-'' \<notin> set (natToString (n div 10))"
      using "1" by simp
    with False show ?thesis
      using digitChar_not_minus [of "n mod 10"] by (subst natToString.simps) auto
  qed
qed

lemma intToString_inj: "intToString a = intToString b \<Longrightarrow> a = b"
proof -
  assume eq: "intToString a = intToString b"
  have no: "\<And>n s. natToString n \<noteq> CHR ''-'' # s"
    using natToString_no_minus by (metis list.set_intros(1))
  show "a = b"
  proof (cases "a < 0")
    case a: True
    show ?thesis
    proof (cases "b < 0")
      case True
      with a eq have "natToString (nat (- a)) = natToString (nat (- b))"
        by (simp add: intToString_def)
      then have "nat (- a) = nat (- b)" by (rule natToString_inj)
      with a True show ?thesis by simp
    next
      case False
      with a eq no show ?thesis by (simp add: intToString_def) metis
    qed
  next
    case a: False
    show ?thesis
    proof (cases "b < 0")
      case True
      with a eq no show ?thesis by (simp add: intToString_def)
    next
      case False
      with a eq have "natToString (nat a) = natToString (nat b)"
        by (simp add: intToString_def)
      then have "nat a = nat b" by (rule natToString_inj)
      with a False show ?thesis by simp
    qed
  qed
qed

lemma digitsValue_zeros: "digitsValue (replicate k CHR ''0'' @ s) = digitsValue s"
proof -
  have "foldl (\<lambda>a c. 10 * a + digitVal c) 0 (replicate k CHR ''0'') = 0"
    by (induction k) (simp_all add: digitVal_def)
  then show ?thesis
    by (simp add: digitsValue_def)
qed

lemma digitsValue_padStart2: "digitsValue (padStart2 (natToString n)) = n"
  by (simp add: padStart2_def digitsValue_zeros digitsValue_natToString)

lemma padStart2_no_minus: "CHR ''-'' \<notin> set (padStart2 (natToString n))"
  using natToString_no_minus [of n] by (auto simp: padStart2_def)

lemma split_at_last:
  "c \<notin> set a \<Longrightarrow> c \<notin> set b \<Longrightarrow> x @ c # a = y @ c # b \<Longrightarrow> x = y \<and> a = b"
proof (induction x arbitrary: y)
  case Nil
  then show ?case by (cases y) auto
next
  case (Cons x0 xs)
  then show ?case by (cases y) auto
qed

lemma formatDate_inj:
  assumes "formatDate a = formatDate b"
  shows "a = b"
proof -
  let ?f = "\<lambda>d. intToString (getFullYear d) @ CHR ''-'' # padStart2 (natToString (getMonth d + 1))"
  let ?g = "\<lambda>d. padStart2 (natToString (getDate d))"
  have "?f a @ CHR ''-'' # ?g a = ?f b @ CHR ''-'' # ?g b"
    using assms by (simp add: formatDate_def)
  from split_at_last [OF padStart2_no_minus padStart2_no_minus this]
  have f: "?f a = ?f b" and g: "?g a = ?g b"
    by simp_all
  from split_at_last [OF padStart2_no_minus padStart2_no_minus f]
  have y: "intToString (getFullYear a) = intToString (getFullYear b)"
    and m: "padStart2 (natToString (getMonth a + 1)) = padStart2 (natToString (getMonth b + 1))"
    by simp_all
  have "getFullYear a = getFullYear b"
    using y by (rule intToString_inj)
  moreover have "getMonth a + 1 = getMonth b + 1"
    using m by (metis digitsValue_padStart2)
  moreover have "getDate a = getDate b"
    using g by (metis digitsValue_padStart2)
  ultimately show ?thesis
    by simp
qed

lemma formatDate_eq_iff: "(formatDate a = formatDate b) = (a = b)"
  using formatDate_inj by blast

subsection \<open>Week totals and the grand total\<close>

lemma statHoursOf_addHours:
  "statHoursOf c (addHours a b) = statHoursOf c a + statHoursOf c b"
  by (cases c) (simp_all add: addHours_def)

lemma statHoursOf_zeroHours: "statHoursOf c zeroHours = 0"
  by (cases c) (simp_all add: zeroHours_def)

lemma foldl_weekTotal:
  "statHoursOf c (foldl (\<lambda>weekTotal d. if type d = Current then addHours weekTotal (cellHours d)
                                         else weekTotal) acc weekDays)
   = statHoursOf c acc
     + sum_list (map (\<lambda>d. statHoursOf c (cellHours d)) (filter (\<lambda>d. type d = Current) weekDays))"
  by (induction weekDays arbitrary: acc) (simp_all add: statHoursOf_addHours)

lemma weekTotalOf_eq:
  "statHoursOf c (weekTotalOf weekDays)
   = sum_list (map (\<lambda>d. statHoursOf c (cellHours d)) (filter (\<lambda>d. type d = Current) weekDays))"
  by (simp add: weekTotalOf_def foldl_weekTotal statHoursOf_zeroHours)

text \<open>One row of the accumulation of the column totals.\<close>

lemma length_columnStep: "length (columnStep cts ci) = length cts"
  by (cases ci) (simp add: columnStep_def)

lemma length_foldl_columnStep: "length (foldl columnStep cts pairs) = length cts"
  by (induction pairs arbitrary: cts) (simp_all add: length_columnStep)

lemma columnStep_other:
  "k \<noteq> index \<Longrightarrow> columnStep cts (d, index) ! k = cts ! k"
  by (simp add: columnStep_def)

lemma foldl_columnStep_other:
  "\<forall>ci \<in> set pairs. snd ci \<noteq> k \<Longrightarrow> foldl columnStep cts pairs ! k = cts ! k"
proof (induction pairs arbitrary: cts)
  case Nil
  then show ?case by simp
next
  case (Cons ci pairs)
  obtain d index where ci: "ci = (d, index)" by (cases ci)
  with Cons.prems have "k \<noteq> index" by auto
  then have "columnStep cts ci ! k = cts ! k"
    unfolding ci by (rule columnStep_other)
  moreover have "foldl columnStep (columnStep cts ci) pairs ! k = columnStep cts ci ! k"
    using Cons.prems by (intro Cons.IH) simp
  ultimately show ?case by simp
qed

lemma zip_upt_snoc: "zip (xs @ [x]) [0 ..< length (xs @ [x])] = zip xs [0 ..< length xs] @ [(x, length xs)]"
  by simp

lemma week_total_column:
  assumes len: "length cts = 8" and row: "length week = 8" and tot: "type (week ! 7) = Total"
  shows "statHoursOf c (foldl columnStep cts (zip week [0 ..< length week]) ! 7)
         = statHoursOf c (cts ! 7) + statHoursOf c (cellHours (week ! 7))"
proof -
  define days where "days = butlast week"
  define x where "x = last week"
  have "week \<noteq> []"
    using row by auto
  then have week: "week = days @ [x]"
    by (simp add: days_def x_def)
  have days: "length days = 7"
    using row by (simp add: days_def)
  have x: "week ! 7 = x"
    using days by (simp add: week nth_append)
  have other: "\<forall>ci \<in> set (zip days [0 ..< length days]). snd ci \<noteq> 7"
    using days by (auto simp: set_zip)
  have "foldl columnStep cts (zip week [0 ..< length week])
        = columnStep (foldl columnStep cts (zip days [0 ..< length days])) (x, 7)"
    unfolding week zip_upt_snoc using days by simp
  moreover have "foldl columnStep cts (zip days [0 ..< length days]) ! 7 = cts ! 7"
    by (rule foldl_columnStep_other [OF other])
  moreover have "length (foldl columnStep cts (zip days [0 ..< length days])) = 8"
    by (simp add: length_foldl_columnStep len)
  ultimately show ?thesis
    using tot x by (simp add: columnStep_def statHoursOf_addHours)
qed

lemma columnTotals_fold:
  assumes "length cts = 8"
    and "\<forall>week \<in> set rws. length week = 8 \<and> type (week ! 7) = Total"
  shows "length (foldl (\<lambda>cts week. foldl columnStep cts (zip week [0 ..< length week])) cts rws) = 8
       \<and> statHoursOf c (foldl (\<lambda>cts week. foldl columnStep cts (zip week [0 ..< length week])) cts rws ! 7)
         = statHoursOf c (cts ! 7)
           + sum_list (map (\<lambda>week. statHoursOf c (cellHours (week ! 7))) rws)"
  using assms
proof (induction rws arbitrary: cts)
  case Nil
  then show ?case by simp
next
  case (Cons week rws)
  let ?cts' = "foldl columnStep cts (zip week [0 ..< length week])"
  have l: "length ?cts' = 8"
    using Cons.prems(1) by (simp add: length_foldl_columnStep)
  have w: "length week = 8" "type (week ! 7) = Total"
    using Cons.prems(2) by simp_all
  have step: "statHoursOf c (?cts' ! 7) = statHoursOf c (cts ! 7) + statHoursOf c (cellHours (week ! 7))"
    by (rule week_total_column [OF Cons.prems(1) w])
  have rest: "\<forall>week \<in> set rws. length week = 8 \<and> type (week ! 7) = Total"
    using Cons.prems(2) by simp
  from Cons.IH [OF l rest] step show ?case
    by simp
qed

lemma columnTotalsOf_total_column:
  assumes "\<forall>week \<in> set rws. length week = 8 \<and> type (week ! 7) = Total"
  shows "statHoursOf c (columnTotalsOf rws ! 7)
         = sum_list (map (\<lambda>week. statHoursOf c (cellHours (week ! 7))) rws)"
proof -
  have "length (replicate 8 zeroHours) = 8" by simp
  from columnTotals_fold [OF this assms, of c] show ?thesis
    by (simp add: columnTotalsOf_def statHoursOf_zeroHours)
qed


lemma rowsOf_shape:
  assumes "w < weeks" and "length days = weeks * 7"
  shows "length (rowsOf days weeks ! w) = 8"
    and "rowsOf days weeks ! w ! 7 = totalCell (weekTotalOf (slice days (w * 7) ((w + 1) * 7)))"
    and "take 7 (rowsOf days weeks ! w) = slice days (w * 7) ((w + 1) * 7)"
proof -
  have le: "(w + 1) * 7 \<le> length days"
    using assms by simp
  then have l: "length (slice days (w * 7) ((w + 1) * 7)) = 7"
    by (simp add: length_slice)
  show "length (rowsOf days weeks ! w) = 8"
    using l by (simp add: rowsOf_nth [OF assms(1)])
  show "rowsOf days weeks ! w ! 7 = totalCell (weekTotalOf (slice days (w * 7) ((w + 1) * 7)))"
    using l by (simp add: rowsOf_nth [OF assms(1)] nth_append)
  show "take 7 (rowsOf days weeks ! w) = slice days (w * 7) ((w + 1) * 7)"
    using l by (simp add: rowsOf_nth [OF assms(1)])
qed

lemma totalCell_fields: "type (totalCell h) = Total" "cellHours (totalCell h) = h"
  by (simp_all add: totalCell_def)

lemma sum_current_take:
  "n * 7 \<le> length days \<Longrightarrow>
     sum_list (map (\<lambda>w. sum_list (map f (filter P (slice days (w * 7) ((w + 1) * 7))))) [0 ..< n])
     = sum_list (map f (filter P (take (n * 7) days)))"
proof (induction n)
  case 0
  then show ?case by simp
next
  case (Suc n)
  have split: "take (n * 7 + 7) days = take (n * 7) days @ take 7 (drop (n * 7) days)"
    by (rule take_add)
  have idx: "Suc n * 7 = n * 7 + 7"
    by simp
  from Suc have "sum_list (map (\<lambda>w. sum_list (map f (filter P (slice days (w * 7) ((w + 1) * 7)))))
                             [0 ..< n])
                 = sum_list (map f (filter P (take (n * 7) days)))"
    by simp
  then show ?case
    unfolding idx split by (simp add: slice_def)
qed

lemma sum_current_slices:
  assumes "length days = weeks * 7"
  shows "sum_list (map (\<lambda>w. sum_list (map f (filter P (slice days (w * 7) ((w + 1) * 7)))))
                    [0 ..< weeks])
         = sum_list (map f (filter P days))"
  using sum_current_take [of weeks days f P] assms by simp

lemma rows_shape:
  assumes "w < weeksNeeded sd"
  shows "length (rows ts sd ! w) = 8"
    and "type (rows ts sd ! w ! 7) = Total"
    and "statHoursOf c (cellHours (rows ts sd ! w ! 7))
         = sum_list (map (\<lambda>d. statHoursOf c (cellHours d))
                       (filter (\<lambda>d. type d = Current) (take 7 (rows ts sd ! w))))"
    and "statHoursOf c (cellHours (rows ts sd ! w ! 7))
         = sum_list (map (\<lambda>d. statHoursOf c (cellHours d))
                       (filter (\<lambda>d. type d = Current)
                          (slice (allDays ts sd) (w * 7) ((w + 1) * 7))))"
  unfolding rows_def
  by (simp_all add: rowsOf_shape [OF assms length_allDays] totalCell_fields weekTotalOf_eq)

lemma rows_all_shape:
  "\<forall>week \<in> set (rows ts sd). length week = 8 \<and> type (week ! 7) = Total"
proof
  fix week
  assume "week \<in> set (rows ts sd)"
  then obtain w where "w < length (rows ts sd)" and "week = rows ts sd ! w"
    by (metis in_set_conv_nth)
  then show "length week = 8 \<and> type (week ! 7) = Total"
    using rows_shape(1,2) [of w sd ts] by (simp add: rows_def length_rowsOf)
qed

lemma grand_total_weeks:
  "statHoursOf c (columnTotals ts sd ! 7)
   = sum_list (map (\<lambda>w. statHoursOf c (cellHours (rows ts sd ! w ! 7))) [0 ..< weeksNeeded sd])"
proof -
  have "statHoursOf c (columnTotals ts sd ! 7)
        = sum_list (map (\<lambda>week. statHoursOf c (cellHours (week ! 7))) (rows ts sd))"
    unfolding columnTotals_def by (rule columnTotalsOf_total_column [OF rows_all_shape])
  also have "rows ts sd = map (\<lambda>w. rows ts sd ! w) [0 ..< weeksNeeded sd]"
    by (metis length_rowsOf map_nth rows_def)
  finally show ?thesis
    by (simp add: o_def)
qed

lemma grand_total_current:
  "statHoursOf c (columnTotals ts sd ! 7)
   = sum_list (map (\<lambda>d. statHoursOf c (cellHours d))
                 (filter (\<lambda>d. type d = Current) (allDays ts sd)))"
proof -
  have "sum_list (map (\<lambda>w. statHoursOf c (cellHours (rows ts sd ! w ! 7))) [0 ..< weeksNeeded sd])
        = sum_list (map (\<lambda>w. sum_list (map (\<lambda>d. statHoursOf c (cellHours d))
                                       (filter (\<lambda>d. type d = Current)
                                          (slice (allDays ts sd) (w * 7) ((w + 1) * 7)))))
                     [0 ..< weeksNeeded sd])"
    by (rule arg_cong [where f = sum_list], rule map_cong [OF refl]) (simp add: rows_shape(4))
  also have "\<dots> = sum_list (map (\<lambda>d. statHoursOf c (cellHours d))
                          (filter (\<lambda>d. type d = Current) (allDays ts sd)))"
    by (rule sum_current_slices [OF length_allDays])
  finally show ?thesis
    by (simp add: grand_total_weeks)
qed



text \<open>The grand total as a sum over the days of the displayed month.\<close>

lemma filter_current_allDays:
  "filter (\<lambda>d. type d = Current) (allDays ts sd) = currentMonthDays ts sd"
  by (simp add: allDays_def previousMonthDays_eq currentMonthDays_eq nextMonthDays_eq
      filter_map o_def dayCell_fields)

lemma grand_total_month:
  "statHoursOf c (columnTotals ts sd ! 7)
   = sum_list (map (\<lambda>i. statHoursOf c
                          (getHoursForDate ts \<lparr> getFullYear = gridYear sd, getMonth = gridMonth sd,
                                                  getDate = i + 1 \<rparr>))
                 [0 ..< daysInMonth sd])"
  by (simp add: grand_total_current filter_current_allDays currentMonthDays_eq o_def dayCell_fields)

lemma march2024_grid: "gridYear march2024 = 2024" "gridMonth march2024 = 2"
  by code_simp+

lemma exampleTimesheet_date:
  "formatDate \<lparr> getFullYear = 2024, getMonth = 2, getDate = 15 \<rparr> = ''2024-03-15''"
  by code_simp

lemma exampleTimesheet_hours:
  "consulting (getHoursForDate exampleTimesheet dt)
   = (if dt = \<lparr> getFullYear = 2024, getMonth = 2, getDate = 15 \<rparr> then 8 else 0)"
proof -
  have "(''2024-03-15'' = formatDate dt)
        = (\<lparr> getFullYear = 2024, getMonth = 2, getDate = 15 \<rparr> = dt)"
    unfolding exampleTimesheet_date [symmetric] by (rule formatDate_eq_iff)
  then show ?thesis
    by (auto simp: getHoursForDate_def exampleTimesheet_def Let_def orZero_def)
qed




subsection \<open>Available statistic types\<close>

lemma foldl_totalHours:
  "statHoursOf c
     (foldl (\<lambda>acc d.
        \<lparr> consulting = consulting acc + orZero (totalConsultingHours d),
          handsOn = handsOn acc + orZero (totalHandsOnHours d),
          squad = squad acc + orZero (totalSquadHours d),
          internal = internal acc + orZero (totalInternalHours d) \<rparr>) acc ds)
   = statHoursOf c acc + sum_list (map (entryHoursOf c) ds)"
  by (induction ds arbitrary: acc) (cases c; simp add: entryHoursOf_def)+

lemma totalHours_eq:
  "statHoursOf c (totalHours ts) = sum_list (map (entryHoursOf c) (byDate ts))"
  by (simp add: totalHours_def foldl_totalHours statHoursOf_zeroHours)

lemma availableStatTypes_filter:
  "availableStatTypes ts
   = filter (\<lambda>c. 0 < statHoursOf c (totalHours ts)) [Consulting, HandsOn, Squad, Internal]"
  by (simp add: availableStatTypes_def entriesOf_def)

lemma availableStatTypes_mem:
  "(c \<in> set (availableStatTypes ts)) = (0 < statHoursOf c (totalHours ts))"
  unfolding availableStatTypes_filter by (cases c) auto

lemma substituteStatType_eq:
  "substituteStatType ts sel =
     (if sel \<notin> set (availableStatTypes ts) \<and> availableStatTypes ts \<noteq> []
      then hd (availableStatTypes ts) else sel)"
  by (cases "availableStatTypes ts") (simp_all add: substituteStatType_def Let_def)

text \<open>
  Claim C9, amended. A statistic category is offered exactly when the sum of its hours
  over all entries of \<open>timesheet.byDate\<close> is greater than zero, the offered
  categories keeping the order consulting, handsOn, squad, internal. When the selected
  category is not offered while some category is, the first offered category is
  substituted; otherwise the selection stays.
\<close>

theorem C9_available_stat_types:
  "availableStatTypes ts
     = filter (\<lambda>c. 0 < sum_list (map (entryHoursOf c) (byDate ts)))
         [Consulting, HandsOn, Squad, Internal]
   \<and> (c \<in> set (availableStatTypes ts)) = (0 < sum_list (map (entryHoursOf c) (byDate ts)))
   \<and> (sel \<notin> set (availableStatTypes ts) \<and> availableStatTypes ts \<noteq> [] \<longrightarrow>
        substituteStatType ts sel = hd (availableStatTypes ts)
        \<and> substituteStatType ts sel \<in> set (availableStatTypes ts))
   \<and> (sel \<in> set (availableStatTypes ts) \<or> availableStatTypes ts = [] \<longrightarrow>
        substituteStatType ts sel = sel)"
proof (intro conjI impI)
  show "availableStatTypes ts
     = filter (\<lambda>c. 0 < sum_list (map (entryHoursOf c) (byDate ts)))
         [Consulting, HandsOn, Squad, Internal]"
    by (simp only: availableStatTypes_filter totalHours_eq)
  show "(c \<in> set (availableStatTypes ts)) = (0 < sum_list (map (entryHoursOf c) (byDate ts)))"
    by (simp only: availableStatTypes_mem totalHours_eq)
next
  assume a: "sel \<notin> set (availableStatTypes ts) \<and> availableStatTypes ts \<noteq> []"
  then show "substituteStatType ts sel = hd (availableStatTypes ts)"
    by (simp add: substituteStatType_eq)
  with a show "substituteStatType ts sel \<in> set (availableStatTypes ts)"
    by simp
next
  assume "sel \<in> set (availableStatTypes ts) \<or> availableStatTypes ts = []"
  then show "substituteStatType ts sel = sel"
    by (auto simp: substituteStatType_eq)
qed

lemma exampleTimesheet_available: "availableStatTypes exampleTimesheet = [Consulting]"
  by code_simp

text \<open>The example timesheet offers consulting only: squad is replaced, consulting stays.\<close>

theorem C9_available_stat_types_witness:
  "Squad \<notin> set (availableStatTypes exampleTimesheet)
   \<and> availableStatTypes exampleTimesheet \<noteq> []
   \<and> Consulting \<in> set (availableStatTypes exampleTimesheet)
   \<and> substituteStatType exampleTimesheet Squad = Consulting
   \<and> substituteStatType exampleTimesheet Consulting = Consulting"
proof -
  have h1: "Squad \<notin> set (availableStatTypes exampleTimesheet)"
    and h2: "availableStatTypes exampleTimesheet \<noteq> []"
    and h3: "Consulting \<in> set (availableStatTypes exampleTimesheet)"
    by (simp_all add: exampleTimesheet_available)
  from C9_available_stat_types [of exampleTimesheet Consulting Squad] h1 h2
  have "substituteStatType exampleTimesheet Squad = hd (availableStatTypes exampleTimesheet)"
    by blast
  then have s1: "substituteStatType exampleTimesheet Squad = Consulting"
    by (simp add: exampleTimesheet_available)
  from C9_available_stat_types [of exampleTimesheet Consulting Consulting] h3
  have s2: "substituteStatType exampleTimesheet Consulting = Consulting"
    by blast
  from h1 h2 h3 s1 s2 show ?thesis
    by blast
qed

text \<open>No cell of the grid of March 2024 has a date of the year 2023.\<close>

lemma sum_list_all_zero:
  fixes f :: "'a \<Rightarrow> rat"
  shows "(\<And>x. x \<in> set xs \<Longrightarrow> f x = 0) \<Longrightarrow> sum_list (map f xs) = 0"
  by (induction xs) simp_all

lemma lastYearTimesheet_date:
  "formatDate \<lparr> getFullYear = 2023, getMonth = 2, getDate = 15 \<rparr> = ''2023-03-15''"
  by code_simp

lemma lastYearTimesheet_hours:
  "getFullYear dt \<noteq> 2023 \<Longrightarrow> consulting (getHoursForDate lastYearTimesheet dt) = 0"
proof -
  assume y: "getFullYear dt \<noteq> 2023"
  have "(''2023-03-15'' = formatDate dt)
        = (\<lparr> getFullYear = 2023, getMonth = 2, getDate = 15 \<rparr> = dt)"
    unfolding lastYearTimesheet_date [symmetric] by (rule formatDate_eq_iff)
  with y show ?thesis
    by (auto simp: getHoursForDate_def lastYearTimesheet_def Let_def orZero_def)
qed

lemma march2024_gridCells_year:
  "x \<in> set (gridCells march2024) \<Longrightarrow> getFullYear (fst x) = 2024"
  by (auto simp: gridCells_def march2024_grid prevYear_def nextYear_def)

lemma lastYearTimesheet_cells:
  "sum_list (map (\<lambda>d. statHoursOf Consulting (cellHours d)) (allDays lastYearTimesheet march2024)) = 0"
proof -
  have "sum_list (map (\<lambda>x. consulting (getHoursForDate lastYearTimesheet (fst x)))
                    (gridCells march2024)) = 0"
    by (rule sum_list_all_zero) (simp add: lastYearTimesheet_hours march2024_gridCells_year)
  then show ?thesis
    by (simp add: allDays_eq o_def case_prod_beta dayCell_fields)
qed

lemma lastYearTimesheet_grand_total:
  "statHoursOf Consulting (columnTotals lastYearTimesheet march2024 ! 7) = 0"
proof -
  have "sum_list (map (\<lambda>i. consulting
                          (getHoursForDate lastYearTimesheet
                             \<lparr> getFullYear = gridYear march2024, getMonth = gridMonth march2024,
                               getDate = i + 1 \<rparr>))
                 [0 ..< daysInMonth march2024]) = 0"
    by (rule sum_list_all_zero) (simp add: lastYearTimesheet_hours march2024_grid)
  then show ?thesis
    by (simp add: grand_total_month)
qed

text \<open>
  Claim C9 as stated fails: the totals are taken over the timesheet, not over the grid.
  With an entry of March 2023 and the grid of March 2024, consulting is offered although
  its grand total in the grid, and its hours in every displayed cell, are zero.
\<close>

theorem C9_other_year_counterexample:
  "Consulting \<in> set (availableStatTypes lastYearTimesheet)
   \<and> statHoursOf Consulting (columnTotals lastYearTimesheet march2024 ! 7) = 0
   \<and> sum_list (map (statHoursOf Consulting \<circ> cellHours) (allDays lastYearTimesheet march2024)) = 0"
proof -
  have "availableStatTypes lastYearTimesheet = [Consulting]"
    by code_simp
  then show ?thesis
    using lastYearTimesheet_cells lastYearTimesheet_grand_total by (simp add: o_def)
qed

subsection \<open>Holidays\<close>













subsection \<open>The click on a day cell\<close>

lemma dayCellOnClick_Some:
  "dayCellOnClick dd stat w = Some (d, ty, w') \<Longrightarrow>
     ty = Current \<and> type dd = Current \<and> 0 < statHoursOf stat (cellHours dd) \<and> day dd = Some d \<and> w' = w"
  by (auto simp: dayCellOnClick_def isSelectable_def split: option.splits if_splits)

lemma dayCellOnClick_called:
  "(dayCellOnClick dd stat w \<noteq> None)
   = (type dd = Current \<and> 0 < statHoursOf stat (cellHours dd) \<and> day dd \<noteq> None)"
  by (auto simp: dayCellOnClick_def isSelectable_def split: option.splits)

lemma clickDayCell_not_called:
  "dayCellOnClick dd (selectedStatType st) w = None \<Longrightarrow> clickDayCell dd w st = st"
  by (simp add: clickDayCell_def)

lemma gridCells_current:
  assumes "(dt, Current) \<in> set (gridCells sd)"
  shows "\<exists>k < daysInMonth sd.
           dt = \<lparr> getFullYear = gridYear sd, getMonth = gridMonth sd, getDate = k + 1 \<rparr>"
  using assms by (auto simp: gridCells_def)

lemma handleDayClick_current:
  assumes "k < daysInMonth sd" and "selectedDate st = sd"
  shows "selectedDate (handleDayClick (k + 1) Current w st)
         = \<lparr> getFullYear = gridYear sd, getMonth = gridMonth sd, getDate = k + 1 \<rparr>"
proof -
  have lo: "1 \<le> int (k + 1)" by simp
  have hi: "int (k + 1) \<le> int (daysInMonthOf (effectiveYear sd) (effectiveMonth sd))"
    using assms(1) by (simp add: daysInMonth_eq)
  have "newDate (getFullYear sd) (int (getMonth sd)) (int (k + 1))
        = normDay (effectiveYear sd) (effectiveMonth sd) (int (k + 1))"
    using newDate_current [of sd "int (k + 1)"] by (simp add: currentYear_def currentMonth_def)
  also have "\<dots> = \<lparr> getFullYear = effectiveYear sd, getMonth = effectiveMonth sd,
                     getDate = nat (int (k + 1)) \<rparr>"
    by (rule normDay_in_range [OF lo hi])
  finally show ?thesis
    using assms(2) by (simp add: handleDayClick_def Let_def gridYear_eq gridMonth_eq)
qed

lemma click_in_grid:
  assumes dd: "dd \<in> set (allDays ts (selectedDate st))"
    and call: "dayCellOnClick dd (selectedStatType st) w = Some (d, ty, w')"
  shows "selectedDate (clickDayCell dd w st)
           = \<lparr> getFullYear = gridYear (selectedDate st), getMonth = gridMonth (selectedDate st),
               getDate = d \<rparr>
       \<and> selectedDay (clickDayCell dd w st) = Some d"
proof -
  let ?sd = "selectedDate st"
  from dd obtain dt cty where g: "(dt, cty) \<in> set (gridCells ?sd)"
    and cell: "dd = dayCell ts dt (getDate dt) cty"
    by (auto simp: allDays_eq)
  from dayCellOnClick_Some [OF call]
  have ty: "ty = Current" and tdd: "type dd = Current" and day: "day dd = Some d"
    by simp_all
  from tdd cell have "cty = Current"
    by (simp add: dayCell_fields)
  with g obtain k where k: "k < daysInMonth ?sd"
    and dt: "dt = \<lparr> getFullYear = gridYear ?sd, getMonth = gridMonth ?sd, getDate = k + 1 \<rparr>"
    using gridCells_current by blast
  from day cell dt have d: "d = k + 1"
    by (simp add: dayCell_fields)
  have "clickDayCell dd w st = handleDayClick (k + 1) Current w' st"
    using call ty d by (simp add: clickDayCell_def)
  moreover have "selectedDay (handleDayClick (k + 1) Current w' st) = Some (k + 1)"
    by (simp add: handleDayClick_def Let_def)
  ultimately show ?thesis
    using handleDayClick_current [OF k refl, of w'] d by simp
qed

lemma grid_month_of_valid_date:
  "gridMonth sd = getMonth sd mod 12"
  "getMonth sd < 12 \<Longrightarrow> gridMonth sd = getMonth sd"
  "getMonth sd < 12 \<Longrightarrow> \<not> (0 \<le> getFullYear sd \<and> getFullYear sd \<le> 99) \<Longrightarrow> gridYear sd = getFullYear sd"
  by (auto simp: gridMonth_eq gridYear_eq effectiveMonth_def effectiveYear_def)

text \<open>
  Claim C10. A day cell calls the day-click handler only when its type is
  \<open>current\<close> and its hours for the selected statistic are greater than zero, so the
  handler is never called with the type \<open>prev\<close> or \<open>next\<close>. A click on a cell
  of the grid either leaves the state as it is or selects the clicked day within the
  month the grid shows: the displayed month does not change (for a selected date with
  a month index below 12 and a year outside 0 to 99, the month and year of the
  selected date itself).
\<close>

theorem C10_day_click_stays_in_month:
  "(dayCellOnClick dd stat w = Some (d, ty, w') \<longrightarrow>
       ty = Current \<and> type dd = Current \<and> 0 < statHoursOf stat (cellHours dd) \<and> day dd = Some d
       \<and> w' = w)
   \<and> (dayCellOnClick dd stat w \<noteq> None)
       = (type dd = Current \<and> 0 < statHoursOf stat (cellHours dd) \<and> day dd \<noteq> None)
   \<and> (dayCellOnClick dd (selectedStatType st) w = None \<longrightarrow> clickDayCell dd w st = st)
   \<and> (dd \<in> set (allDays ts (selectedDate st))
        \<and> dayCellOnClick dd (selectedStatType st) w = Some (d, ty, w') \<longrightarrow>
       selectedDate (clickDayCell dd w st)
           = \<lparr> getFullYear = gridYear (selectedDate st), getMonth = gridMonth (selectedDate st),
               getDate = d \<rparr>
       \<and> selectedDay (clickDayCell dd w st) = Some d)
   \<and> (getMonth (selectedDate st) < 12 \<longrightarrow> gridMonth (selectedDate st) = getMonth (selectedDate st))
   \<and> (getMonth (selectedDate st) < 12
        \<and> \<not> (0 \<le> getFullYear (selectedDate st) \<and> getFullYear (selectedDate st) \<le> 99) \<longrightarrow>
       gridYear (selectedDate st) = getFullYear (selectedDate st))"
  using dayCellOnClick_Some [of dd stat w d ty w'] dayCellOnClick_called [of dd stat w]
    clickDayCell_not_called [of dd st w] click_in_grid [of dd ts st w d ty w']
    grid_month_of_valid_date(2,3) [of "selectedDate st"]
  by blast

lemma exampleState_cell:
  "allDays exampleTimesheet march2024 ! 19
   = dayCell exampleTimesheet \<lparr> getFullYear = 2024, getMonth = 2, getDate = 15 \<rparr> 15 Current"
proof -
  have "(14::nat) < daysInMonth march2024"
    by (simp add: march2024_values)
  from allDays_current_nth [OF this, of exampleTimesheet] show ?thesis
    by (simp add: march2024_values march2024_grid)
qed

lemma exampleState_call:
  "dayCellOnClick (allDays exampleTimesheet march2024 ! 19) Consulting 2 = Some (15, Current, 2)"
  by (simp add: exampleState_cell dayCellOnClick_def isSelectable_def dayCell_fields
      exampleTimesheet_hours)

text \<open>
  A click on the cell of the 15th of March 2024, which has eight consulting hours,
  selects that day of the same month.
\<close>

theorem C10_day_click_stays_in_month_witness:
  "allDays exampleTimesheet march2024 ! 19 \<in> set (allDays exampleTimesheet (selectedDate exampleState))
   \<and> dayCellOnClick (allDays exampleTimesheet march2024 ! 19) (selectedStatType exampleState) 2
       = Some (15, Current, 2)
   \<and> getMonth (selectedDate exampleState) < 12
   \<and> selectedDate (clickDayCell (allDays exampleTimesheet march2024 ! 19) 2 exampleState)
       = \<lparr> getFullYear = 2024, getMonth = 2, getDate = 15 \<rparr>
   \<and> selectedDay (clickDayCell (allDays exampleTimesheet march2024 ! 19) 2 exampleState) = Some 15
   \<and> type (allDays exampleTimesheet march2024 ! 19) = Current
   \<and> 0 < statHoursOf Consulting (cellHours (allDays exampleTimesheet march2024 ! 19))"
proof -
  let ?dd = "allDays exampleTimesheet march2024 ! 19"
  have sd: "selectedDate exampleState = march2024"
    and stat: "selectedStatType exampleState = Consulting"
    by (simp_all add: exampleState_def)
  have "(19::nat) < length (allDays exampleTimesheet march2024)"
    by (simp add: length_allDays march2024_values)
  then have h1: "?dd \<in> set (allDays exampleTimesheet (selectedDate exampleState))"
    unfolding sd by (rule nth_mem)
  have h2: "dayCellOnClick ?dd (selectedStatType exampleState) 2 = Some (15, Current, 2)"
    unfolding stat by (rule exampleState_call)
  have h3: "getMonth (selectedDate exampleState) < 12"
    by (simp add: sd march2024_def)
  note c10 = C10_day_click_stays_in_month [of ?dd Consulting 2 15 Current 2 exampleState exampleTimesheet]
  from c10 h1 h2 have moved: "selectedDate (clickDayCell ?dd 2 exampleState)
           = \<lparr> getFullYear = gridYear (selectedDate exampleState),
               getMonth = gridMonth (selectedDate exampleState), getDate = 15 \<rparr>
       \<and> selectedDay (clickDayCell ?dd 2 exampleState) = Some 15"
    by blast
  from c10 h2 have sel: "type ?dd = Current \<and> 0 < statHoursOf Consulting (cellHours ?dd)"
    unfolding stat by blast
  from moved sel h1 h2 h3 show ?thesis
    by (simp add: sd march2024_grid)
qed

end
